theory Spec2Isabelle
  imports Main "HOL-Library.Word"
begin

section \<open>The environment: files, clock, system calls\<close>

text \<open>
  The program (\<^verbatim>\<open>main.go\<close>) talks to the operating system through Go's standard
  library: \<^verbatim>\<open>os.MkdirAll\<close>, \<^verbatim>\<open>os.OpenFile\<close>, \<^verbatim>\<open>(*os.File).Stat\<close>, \<^verbatim>\<open>Close\<close>,
  \<^verbatim>\<open>os.Rename\<close>, \<^verbatim>\<open>fmt.Fprintln\<close> and \<^verbatim>\<open>time.Now\<close>. None of these is code of the
  repository, so the theory carries a small model of them: a \<open>world\<close> that every call
  reads and updates. The model is a flat POSIX-like file system (directories, directory
  entries, inodes, a table of \<^verbatim>\<open>*os.File\<close> objects), with the failures the program can
  meet: missing files and directories, no free inode, a full disk, closed and nil files.
  Every call is also written to a log (\<open>calls\<close>), so that theorems can say which calls
  a function of the program makes and in which order.
\<close>

type_synonym int8 = "8 word"
type_synonym int64 = "64 word"
type_synonym uint64 = "64 word"
type_synonym path = string
type_synonym bytes = string

text \<open>A \<^verbatim>\<open>*os.File\<close>: \<open>None\<close> is the nil pointer, \<open>Some h\<close> points to object \<open>h\<close>.\<close>

type_synonym file_ptr = "nat option"

datatype os_error = ErrInvalid | ErrClosed | ENOENT | ENOTDIR | EISDIR | ENOSPC | EIO

datatype syscall =
    SysMkdirAll path
  | SysOpenFile path
  | SysClose file_ptr
  | SysRename path path
  | SysWrite file_ptr bytes

record inode =
  idata :: bytes
  mtime :: int64

record world =
  dirs :: "path list"
  entries :: "(path \<times> nat) list"
  inodes :: "inode list"
  free_inodes :: nat
  disk_free :: nat
  handles :: "(nat \<times> bool) list"
  now_unix :: int64
  future :: "int64 list"
  calls :: "syscall list"

text \<open>
  \<open>dirs\<close>: the directories that exist. \<open>entries\<close>: the regular files, path to inode
  number (the first pair of a path counts). \<open>inodes\<close>: contents and modification time.
  \<open>free_inodes\<close> and \<open>disk_free\<close>: how many files can still be created and how many
  bytes can still be written. \<open>handles\<close>: the \<^verbatim>\<open>os.File\<close> objects made so far, each
  with its inode and whether it is still open. \<open>now_unix\<close>: the wall clock in seconds;
  \<open>future\<close>: the values it takes after each further reading (any values: a wall
  clock may be set back).
\<close>

definition logcall :: "syscall \<Rightarrow> world \<Rightarrow> world" where
  "logcall c w = w\<lparr>calls := calls w @ [c]\<rparr>"

text \<open>The calls made between two worlds.\<close>

definition new_calls :: "world \<Rightarrow> world \<Rightarrow> syscall list" where
  "new_calls w w' = drop (length (calls w)) (calls w')"

text \<open>\<^verbatim>\<open>time.Now()\<close>, read as Unix seconds; the clock then moves to its next value.\<close>

definition time_Now :: "world \<Rightarrow> int64 \<times> world" where
  "time_Now w =
     (now_unix w,
      case future w of
        [] \<Rightarrow> w
      | t # ts \<Rightarrow> w\<lparr>now_unix := t, future := ts\<rparr>)"

text \<open>The directory part of a path, as the file system resolves it (no cleaning).\<close>

definition fs_parent :: "path \<Rightarrow> path" where
  "fs_parent p =
     (let d = rev (dropWhile (\<lambda>c. c \<noteq> CHR ''/'') (rev p)) in
      if d = [] then ''.''
      else if butlast d = [] then ''/''
      else butlast d)"

definition lookup_handle :: "world \<Rightarrow> file_ptr \<Rightarrow> (nat \<times> bool) option" where
  "lookup_handle w f =
     (case f of
        None \<Rightarrow> None
      | Some h \<Rightarrow> if h < length (handles w) then Some (handles w ! h) else None)"

text \<open>
  \<^verbatim>\<open>os.MkdirAll(dir, 0777)\<close>: fails when \<open>dir\<close> is a regular file; otherwise the
  directory exists afterwards. Ancestors are not tracked.
\<close>

definition os_MkdirAll :: "path \<Rightarrow> world \<Rightarrow> os_error option \<times> world" where
  "os_MkdirAll d w =
     (let w1 = logcall (SysMkdirAll d) w in
      if map_of (entries w) d \<noteq> None then (Some ENOTDIR, w1)
      else if d \<in> set (dirs w) then (None, w1)
      else (None, w1\<lparr>dirs := d # dirs w\<rparr>))"

text \<open>
  \<^verbatim>\<open>os.OpenFile(p, os.O_CREATE|os.O_WRONLY|os.O_APPEND, 0666)\<close>: opens the file at \<open>p\<close>
  for appending, creating it empty when it is not there. A directory entry whose inode
  is missing is an I/O error. Returns Go's pair \<^verbatim>\<open>(*os.File, error)\<close>: a nil file
  exactly when the error is set.
\<close>

definition os_OpenFile :: "path \<Rightarrow> world \<Rightarrow> (file_ptr \<times> os_error option) \<times> world" where
  "os_OpenFile p w =
     (let w1 = logcall (SysOpenFile p) w in
      if p \<in> set (dirs w) then ((None, Some EISDIR), w1)
      else
        case map_of (entries w) p of
          Some i \<Rightarrow>
            if \<not> i < length (inodes w) then ((None, Some EIO), w1)
            else
              ((Some (length (handles w)), None),
               w1\<lparr>handles := handles w @ [(i, True)]\<rparr>)
        | None \<Rightarrow>
            if fs_parent p \<notin> set (dirs w) then ((None, Some ENOENT), w1)
            else if free_inodes w = 0 then ((None, Some ENOSPC), w1)
            else
              ((Some (length (handles w)), None),
               w1\<lparr>entries := (p, length (inodes w)) # entries w,
                   inodes := inodes w @ [\<lparr>idata = [], mtime = now_unix w\<rparr>],
                   free_inodes := free_inodes w - 1,
                   handles := handles w @ [(length (inodes w), True)]\<rparr>))"

text \<open>
  \<^verbatim>\<open>f.Stat()\<close> followed by \<^verbatim>\<open>ModTime().Unix()\<close>: the modification time of an open file,
  \<open>None\<close> when \<^verbatim>\<open>Stat\<close> fails (nil or closed file).
\<close>

definition os_Stat_ModTime :: "file_ptr \<Rightarrow> world \<Rightarrow> int64 option" where
  "os_Stat_ModTime f w =
     (case lookup_handle w f of
        None \<Rightarrow> None
      | Some (i, is_open) \<Rightarrow>
          if is_open \<and> i < length (inodes w) then Some (mtime (inodes w ! i)) else None)"

text \<open>\<^verbatim>\<open>f.Close()\<close>.\<close>

definition os_Close :: "file_ptr \<Rightarrow> world \<Rightarrow> os_error option \<times> world" where
  "os_Close f w =
     (let w1 = logcall (SysClose f) w in
      case lookup_handle w f of
        None \<Rightarrow> (Some ErrInvalid, w1)
      | Some (i, is_open) \<Rightarrow>
          if \<not> is_open then (Some ErrClosed, w1)
          else (None, w1\<lparr>handles := (handles w)[the f := (i, False)]\<rparr>))"

text \<open>
  \<^verbatim>\<open>os.Rename(old, new)\<close>: moves the directory entry; fails when \<open>old\<close> is not a file,
  when \<open>new\<close> is a directory or when the directory of \<open>new\<close> does not exist.
\<close>

definition os_Rename :: "path \<Rightarrow> path \<Rightarrow> world \<Rightarrow> os_error option \<times> world" where
  "os_Rename old new w =
     (let w1 = logcall (SysRename old new) w in
      case map_of (entries w) old of
        None \<Rightarrow> (Some ENOENT, w1)
      | Some i \<Rightarrow>
          if new \<in> set (dirs w) then (Some EISDIR, w1)
          else if fs_parent new \<notin> set (dirs w) then (Some ENOENT, w1)
          else
            (None,
             w1\<lparr>entries := (new, i) # filter (\<lambda>e. fst e \<noteq> old \<and> fst e \<noteq> new) (entries w)\<rparr>))"

text \<open>
  \<^verbatim>\<open>f.Write(buf)\<close> on a file opened with \<^verbatim>\<open>O_APPEND\<close>: the bytes go to the end of the
  file. On a full disk only a prefix is written and the error is set. Returns Go's pair
  \<^verbatim>\<open>(n int, err error)\<close>.
\<close>

definition os_Write :: "file_ptr \<Rightarrow> bytes \<Rightarrow> world \<Rightarrow> (int \<times> os_error option) \<times> world" where
  "os_Write f buf w =
     (let w1 = logcall (SysWrite f buf) w in
      case lookup_handle w f of
        None \<Rightarrow> ((0, Some ErrInvalid), w1)
      | Some (i, is_open) \<Rightarrow>
          if \<not> is_open then ((0, Some ErrClosed), w1)
          else if \<not> i < length (inodes w) then ((0, Some ErrInvalid), w1)
          else
            let k = min (length buf) (disk_free w);
                old = inodes w ! i
            in ((int k, if k < length buf then Some ENOSPC else None),
                w1\<lparr>inodes := (inodes w)[i := \<lparr>idata = idata old @ take k buf, mtime = now_unix w\<rparr>],
                    disk_free := disk_free w - k\<rparr>))"

text \<open>
  \<^verbatim>\<open>fmt.Fprintln(f, string(p))\<close>: formats the one operand followed by a newline into a
  buffer and hands the buffer to \<^verbatim>\<open>f.Write\<close> in one call, returning what it returns.
\<close>

definition fmt_Fprintln :: "file_ptr \<Rightarrow> bytes \<Rightarrow> world \<Rightarrow> (int \<times> os_error option) \<times> world" where
  "fmt_Fprintln f s w = os_Write f (s @ [CHR 0x0A]) w"

section \<open>The program\<close>

text \<open>A Go call either returns or panics; a panic carries its value.\<close>

datatype panic_value = PanicError os_error | NilDereference

datatype 'a outcome = Returns 'a | Panics panic_value

text \<open>Go \<^verbatim>\<open>error\<close> values the program makes or passes on.\<close>

datatype error = InvalidWhenRotate int8 | PathError os_error

text \<open>
  \<^verbatim>\<open>type TimeRotatingFileHandler struct\<close>. The field \<^verbatim>\<open>mux sync.Mutex\<close> is not part of
  the record: a call that runs alone finds the mutex free and leaves it free, so the
  sequential functions below do not mention it. It is a component of the state of the
  interleaving model further down.
\<close>

record TimeRotatingFileHandler =
  fd :: file_ptr
  baseName :: string
  interval :: int64
  suffix :: string
  rolloverAt :: int64

definition WhenSecond :: int8 where "WhenSecond = 0"
definition WhenMinute :: int8 where "WhenMinute = 1"
definition WhenHour :: int8 where "WhenHour = 2"
definition WhenDay :: int8 where "WhenDay = 3"

text \<open>
  \<^verbatim>\<open>func newLogHandler(baseName string, when int8, interval int)\<close>. \<open>pathDir\<close> stands for
  \<^verbatim>\<open>path.Dir\<close> of Go's library. Go's \<^verbatim>\<open>int\<close> is taken at 64 bits, so \<^verbatim>\<open>int64(interval)\<close>
  is the identity. The result \<^verbatim>\<open>(nil, err)\<close> is \<open>Inl err\<close> and \<^verbatim>\<open>(h, nil)\<close> is \<open>Inr h\<close>.
  \<^verbatim>\<open>fInfo, _ := h.fd.Stat()\<close> drops the error; were \<^verbatim>\<open>Stat\<close> to fail, \<^verbatim>\<open>fInfo.ModTime()\<close>
  would dereference nil.
\<close>

definition newLogHandler ::
  "(path \<Rightarrow> path) \<Rightarrow> string \<Rightarrow> int8 \<Rightarrow> int64 \<Rightarrow> world \<Rightarrow>
     (error + TimeRotatingFileHandler) outcome \<times> world" where
  "newLogHandler pathDir base when ival w =
     (let dir = pathDir base;
          (_, w1) = os_MkdirAll dir w;
          sw = (if when = WhenSecond then Some (1, ''2006-01-02_15-04-05'')
                else if when = WhenMinute then Some (60, ''2006-01-02_15-04'')
                else if when = WhenHour then Some (3600, ''2006-01-02_15'')
                else if when = WhenDay then Some (3600 * 24, ''2006-01-02'')
                else None)
      in (case sw of
            None \<Rightarrow> (Returns (Inl (InvalidWhenRotate when)), w1)
          | Some (secs, sfx) \<Rightarrow>
              (let iv = secs * ival;
                   ((f, err), w2) = os_OpenFile base w1
               in (case err of
                     Some e \<Rightarrow> (Returns (Inl (PathError e)), w2)
                   | None \<Rightarrow>
                       (case os_Stat_ModTime f w2 of
                          None \<Rightarrow> (Panics NilDereference, w2)
                        | Some mt \<Rightarrow>
                            (Returns (Inr \<lparr>fd = f, baseName = base, interval = iv,
                                            suffix = sfx, rolloverAt = mt + iv\<rparr>), w2))))))"

text \<open>
  \<^verbatim>\<open>func (l *TimeRotatingFileHandler) doRollover()\<close>. \<open>Format now layout\<close> stands for
  \<^verbatim>\<open>now.Format(layout)\<close> of Go's library in the process's time zone. The comparison of
  the two \<^verbatim>\<open>int64\<close> values is signed. The errors of \<^verbatim>\<open>l.fd.Close()\<close> and of the second
  \<^verbatim>\<open>os.OpenFile\<close> are dropped, as in the source; a failed \<^verbatim>\<open>os.Rename\<close> panics. The
  clock is read twice: for the check and the name, and again for the new \<^verbatim>\<open>rolloverAt\<close>.
\<close>

definition doRollover ::
  "(int64 \<Rightarrow> string \<Rightarrow> string) \<Rightarrow> TimeRotatingFileHandler \<Rightarrow> world \<Rightarrow>
     unit outcome \<times> TimeRotatingFileHandler \<times> world" where
  "doRollover Format l w =
     (let (now, w0) = time_Now w in
      if sint (rolloverAt l) \<le> sint now then
        let fName = baseName l @ Format now (suffix l);
            (_, w1) = os_Close (fd l) w0;
            (e, w2) = os_Rename (baseName l) fName w1
        in case e of
             Some err \<Rightarrow> (Panics (PanicError err), l, w2)
           | None \<Rightarrow>
               let ((f, _), w3) = os_OpenFile (baseName l) w2;
                   (now', w4) = time_Now w3
               in (Returns (), l\<lparr>fd := f, rolloverAt := now' + interval l\<rparr>, w4)
      else (Returns (), l, w0))"

text \<open>
  \<^verbatim>\<open>func (l *TimeRotatingFileHandler) Write(p []byte) (n int, err error)\<close>, called alone:
  lock, \<^verbatim>\<open>doRollover\<close>, unlock, then \<^verbatim>\<open>fmt.Fprintln(l.fd, string(p))\<close>.
\<close>

definition Write ::
  "(int64 \<Rightarrow> string \<Rightarrow> string) \<Rightarrow> TimeRotatingFileHandler \<Rightarrow> bytes \<Rightarrow> world \<Rightarrow>
     (int \<times> os_error option) outcome \<times> TimeRotatingFileHandler \<times> world" where
  "Write Format l p w =
     (case doRollover Format l w of
        (Panics v, l1, w1) \<Rightarrow> (Panics v, l1, w1)
      | (Returns _, l1, w1) \<Rightarrow>
          let ((n, err), w2) = fmt_Fprintln (fd l1) p w1
          in (Returns (n, err), l1, w2))"

text \<open>\<^verbatim>\<open>func (l *TimeRotatingFileHandler) Close() error\<close>.\<close>

definition Close :: "TimeRotatingFileHandler \<Rightarrow> world \<Rightarrow> os_error option \<times> world" where
  "Close l w = os_Close (fd l) w"

text \<open>
  \<^verbatim>\<open>type ConfigStruct struct\<close> of \<^verbatim>\<open>main.go\<close>; \<^verbatim>\<open>startTime\<close> is kept as Unix seconds.
  The second copy of the file has the fields \<^verbatim>\<open>address\<close> and \<^verbatim>\<open>workerNum\<close> in place of
  \<^verbatim>\<open>serverIp\<close> and \<^verbatim>\<open>serverPort\<close> and takes the number of workers from a flag; the
  handler, \<^verbatim>\<open>handleLog\<close> and the POST handler are the same in both.
\<close>

record ConfigStruct =
  logPath :: string
  serverIp :: string
  serverPort :: string
  handledNum :: uint64
  startTime :: int64

text \<open>
  The channel \<^verbatim>\<open>make(chan []byte, workerNum)\<close>: a buffer and its capacity. A send
  completes when the buffer has room; otherwise the sending goroutine stays parked
  (\<open>None\<close>).
\<close>

record chan =
  buf :: "bytes list"
  cap :: nat

definition chan_send :: "bytes \<Rightarrow> chan \<Rightarrow> chan option" where
  "chan_send v ch =
     (if length (buf ch) < cap ch then Some (ch\<lparr>buf := buf ch @ [v]\<rparr>) else None)"

text \<open>
  What \<^verbatim>\<open>c.JSON(code, gin.H{...})\<close> sends: the status code and the fields of the JSON
  object.
\<close>

record response =
  status_code :: nat
  json_body :: "(string \<times> string) list"

definition StatusOK :: nat where "StatusOK = 200"

text \<open>
  The function literal registered with \<^verbatim>\<open>r.POST("/kong-log", ...)\<close> in \<^verbatim>\<open>main\<close>. Its
  input is the pair that \<^verbatim>\<open>c.GetRawData()\<close> returns. The result is the response written
  and the channel afterwards, \<open>None\<close> while the handler is parked on \<^verbatim>\<open>channel <- data\<close>.
\<close>

definition postKongLog :: "bytes \<times> 'e option \<Rightarrow> chan \<Rightarrow> (response \<times> chan) option" where
  "postKongLog raw ch =
     (let (data, err1) = raw in
      if err1 \<noteq> None then
        Some (\<lparr>status_code = StatusOK, json_body = [(''status'', ''ok'')]\<rparr>, ch)
      else
        (case chan_send data ch of
           None \<Rightarrow> None
         | Some ch' \<Rightarrow>
             Some (\<lparr>status_code = StatusOK, json_body = [(''status'', ''ok'')]\<rparr>, ch')))"

section \<open>The workers\<close>

text \<open>
  \<^verbatim>\<open>func handleLog(logChannel chan []byte, writer Handler, c *ConfigStruct)\<close>. \<^verbatim>\<open>main\<close>
  starts \<^verbatim>\<open>workerNum\<close> goroutines running it, all on the same channel, the same handler
  and the same \<^verbatim>\<open>*ConfigStruct\<close>: these are shared, and each worker has only its place in
  the loop of its own. A schedule says which worker moves next. The place of a worker:
  \<^item> \<open>AtRecv\<close>: the head of \<^verbatim>\<open>for json := range logChannel\<close> (waits while the channel is
    empty and open; leaves the loop when it is empty and closed);
  \<^item> \<open>AtWrite json\<close>: \<^verbatim>\<open>writer.Write(json)\<close>, whose result is discarded. \<open>writer\<close> is an
    interface value: the model takes its \<^verbatim>\<open>Write\<close> method as the function \<open>wr\<close>, over any
    handler state \<open>'h\<close> and any world \<open>'w\<close>, and takes the call as one step (its own
    steps are the subject of the next section);
  \<^item> \<open>AtLoad\<close> and \<open>AtStore v\<close>: \<^verbatim>\<open>c.handledNum++\<close>, which is a read of the field and a
    write of the value read plus one, with no lock and no atomic operation around them;
  \<^item> \<open>Exited\<close>: the loop has ended; \<open>Crashed\<close>: \<^verbatim>\<open>Write\<close> has panicked, which ends the
    process, so nothing moves afterwards.
\<close>

datatype worker_pc =
    AtRecv | AtWrite bytes | AtLoad | AtStore uint64 | Exited | Crashed panic_value

record ('h, 'w) pool =
  logChannel :: chan
  chan_closed :: bool
  writer :: 'h
  config :: ConfigStruct
  files :: 'w
  workers :: "worker_pc list"

fun is_crashed :: "worker_pc \<Rightarrow> bool" where
  "is_crashed (Crashed v) = True"
| "is_crashed p = False"

definition handleLog_step ::
  "('h \<Rightarrow> bytes \<Rightarrow> 'w \<Rightarrow> (int \<times> 'e option) outcome \<times> 'h \<times> 'w) \<Rightarrow> nat \<Rightarrow>
     ('h, 'w) pool \<Rightarrow> ('h, 'w) pool option" where
  "handleLog_step wr t s =
     (if \<not> t < length (workers s) \<or> list_ex is_crashed (workers s) then None
      else
        case workers s ! t of
          AtRecv \<Rightarrow>
            (case buf (logChannel s) of
               json # rest \<Rightarrow>
                 Some (s\<lparr>logChannel := (logChannel s)\<lparr>buf := rest\<rparr>,
                         workers := (workers s)[t := AtWrite json]\<rparr>)
             | [] \<Rightarrow>
                 if chan_closed s then Some (s\<lparr>workers := (workers s)[t := Exited]\<rparr>)
                 else None)
        | AtWrite json \<Rightarrow>
            (case wr (writer s) json (files s) of
               (Panics v, l1, w1) \<Rightarrow>
                 Some (s\<lparr>writer := l1, files := w1, workers := (workers s)[t := Crashed v]\<rparr>)
             | (Returns r, l1, w1) \<Rightarrow>
                 Some (s\<lparr>writer := l1, files := w1, workers := (workers s)[t := AtLoad]\<rparr>))
        | AtLoad \<Rightarrow> Some (s\<lparr>workers := (workers s)[t := AtStore (handledNum (config s))]\<rparr>)
        | AtStore v \<Rightarrow>
            Some (s\<lparr>config := (config s)\<lparr>handledNum := v + 1\<rparr>,
                    workers := (workers s)[t := AtRecv]\<rparr>)
        | Exited \<Rightarrow> None
        | Crashed v \<Rightarrow> None)"

fun handleLog_run ::
  "('h \<Rightarrow> bytes \<Rightarrow> 'w \<Rightarrow> (int \<times> 'e option) outcome \<times> 'h \<times> 'w) \<Rightarrow> nat list \<Rightarrow>
     ('h, 'w) pool \<Rightarrow> ('h, 'w) pool option" where
  "handleLog_run wr [] s = Some s"
| "handleLog_run wr (t # ts) s =
     (case handleLog_step wr t s of
        None \<Rightarrow> None
      | Some s' \<Rightarrow> handleLog_run wr ts s')"

text \<open>What a test would look at: the counter, where each worker is, the files' contents.\<close>

definition pool_observe ::
  "(TimeRotatingFileHandler, world) pool \<Rightarrow> uint64 \<times> worker_pc list \<times> bytes list" where
  "pool_observe s = (handledNum (config s), workers s, map idata (inodes (files s)))"

section \<open>Several workers: \<^verbatim>\<open>Write\<close> step by step\<close>

text \<open>
  \<^verbatim>\<open>main\<close> starts \<^verbatim>\<open>workerNum\<close> goroutines that call \<^verbatim>\<open>Write\<close> on the same handler. The
  interleaving model runs each call one statement at a time; a schedule says which
  goroutine moves next. The program counter of a call names the statement it executes
  next:
  \<^item> \<open>AtLock\<close>: \<^verbatim>\<open>l.mux.Lock()\<close> (enabled only while the mutex is free);
  \<^item> \<open>AtNow\<close>: \<^verbatim>\<open>now := time.Now()\<close> and the test \<^verbatim>\<open>l.rolloverAt <= now.Unix()\<close>;
  \<^item> \<open>AtClose\<close>, \<open>AtRename\<close>, \<open>AtOpen\<close>, \<open>AtRolloverAt\<close>: the four statements of the
    rollover (\<^verbatim>\<open>baseName\<close> and \<^verbatim>\<open>suffix\<close> are never assigned after construction, so
    \<^verbatim>\<open>fName\<close> is computed where it is used);
  \<^item> \<open>AtUnlock\<close>: \<^verbatim>\<open>l.mux.Unlock()\<close>;
  \<^item> \<open>AtFprintln\<close>: \<^verbatim>\<open>return fmt.Fprintln(l.fd, string(p))\<close>;
  \<^item> \<open>Returned\<close> and \<open>Panicked\<close>: the call is over. An unrecovered panic ends the
    whole process, so nothing moves once a call has panicked.
\<close>

datatype pc =
    AtLock | AtNow | AtClose | AtRename | AtOpen | AtRolloverAt | AtUnlock | AtFprintln
  | Returned "int \<times> os_error option"
  | Panicked panic_value

record call =
  at :: pc
  payload :: bytes
  now_local :: int64

record shared =
  handler :: TimeRotatingFileHandler
  mux :: "nat option"
  os :: world
  running :: "call list"

fun crashed :: "pc \<Rightarrow> bool" where
  "crashed (Panicked v) = True"
| "crashed p = False"

definition goto :: "nat \<Rightarrow> pc \<Rightarrow> shared \<Rightarrow> shared" where
  "goto t p s = s\<lparr>running := (running s)[t := (running s ! t)\<lparr>at := p\<rparr>]\<rparr>"

definition step :: "(int64 \<Rightarrow> string \<Rightarrow> string) \<Rightarrow> nat \<Rightarrow> shared \<Rightarrow> shared option" where
  "step Format t s =
     (if \<not> t < length (running s) \<or> list_ex (\<lambda>c. crashed (at c)) (running s) then None
      else
        let c = running s ! t; l = handler s; w = os s in
        case at c of
          AtLock \<Rightarrow>
            (case mux s of
               None \<Rightarrow> Some (goto t AtNow (s\<lparr>mux := Some t\<rparr>))
             | Some holder \<Rightarrow> None)
        | AtNow \<Rightarrow>
            (let (now, w0) = time_Now w in
             Some (goto t (if sint (rolloverAt l) \<le> sint now then AtClose else AtUnlock)
                     (s\<lparr>os := w0, running := (running s)[t := c\<lparr>now_local := now\<rparr>]\<rparr>)))
        | AtClose \<Rightarrow>
            (let (_, w1) = os_Close (fd l) w in Some (goto t AtRename (s\<lparr>os := w1\<rparr>)))
        | AtRename \<Rightarrow>
            (let fName = baseName l @ Format (now_local c) (suffix l);
                 (e, w2) = os_Rename (baseName l) fName w
             in case e of
                  Some err \<Rightarrow> Some (goto t (Panicked (PanicError err)) (s\<lparr>os := w2\<rparr>))
                | None \<Rightarrow> Some (goto t AtOpen (s\<lparr>os := w2\<rparr>)))
        | AtOpen \<Rightarrow>
            (let ((f, _), w3) = os_OpenFile (baseName l) w in
             Some (goto t AtRolloverAt (s\<lparr>os := w3, handler := l\<lparr>fd := f\<rparr>\<rparr>)))
        | AtRolloverAt \<Rightarrow>
            (let (now', w4) = time_Now w in
             Some (goto t AtUnlock
                     (s\<lparr>os := w4, handler := l\<lparr>rolloverAt := now' + interval l\<rparr>\<rparr>)))
        | AtUnlock \<Rightarrow> Some (goto t AtFprintln (s\<lparr>mux := None\<rparr>))
        | AtFprintln \<Rightarrow>
            (let ((n, err), w') = fmt_Fprintln (fd l) (payload c) w in
             Some (goto t (Returned (n, err)) (s\<lparr>os := w'\<rparr>)))
        | Returned r \<Rightarrow> None
        | Panicked v \<Rightarrow> None)"

text \<open>Running a schedule; \<open>None\<close> when it asks a goroutine to move that cannot.\<close>

fun run :: "(int64 \<Rightarrow> string \<Rightarrow> string) \<Rightarrow> nat list \<Rightarrow> shared \<Rightarrow> shared option" where
  "run Format [] s = Some s"
| "run Format (t # ts) s =
     (case step Format t s of
        None \<Rightarrow> None
      | Some s' \<Rightarrow> run Format ts s')"

text \<open>
  The statements between \<^verbatim>\<open>Lock\<close> and \<^verbatim>\<open>Unlock\<close>: a call that is at one of them holds
  the mutex (a call that panicked did so inside \<^verbatim>\<open>doRollover\<close> and never unlocked).
\<close>

fun holds_mux :: "pc \<Rightarrow> bool" where
  "holds_mux AtLock = False"
| "holds_mux AtFprintln = False"
| "holds_mux (Returned r) = False"
| "holds_mux p = True"

definition lock_inv :: "shared \<Rightarrow> bool" where
  "lock_inv s = (\<forall>t < length (running s). holds_mux (at (running s ! t)) = (mux s = Some t))"

text \<open>What a test would look at: who holds the mutex, where each call is, the files' contents.\<close>

definition observe :: "shared \<Rightarrow> nat option \<times> pc list \<times> bytes list" where
  "observe s = (mux s, map at (running s), map idata (inodes (os s)))"

section \<open>Sequences of calls\<close>

text \<open>The readings the clock will give, the next one first.\<close>

definition clock_readings :: "world \<Rightarrow> int64 list" where
  "clock_readings w = now_unix w # future w"

text \<open>A clock that never goes back and stays where adding \<open>iv\<close> does not overflow.\<close>

definition clock_ok :: "int64 \<Rightarrow> world \<Rightarrow> bool" where
  "clock_ok iv w =
     (sorted (map sint (clock_readings w)) \<and>
      (\<forall>t \<in> set (clock_readings w). sint t + sint iv < 2 ^ 63))"

text \<open>
  A caller that makes one \<^verbatim>\<open>Write\<close> call per payload, in order, and stops at a panic:
  the handler as it is after each call.
\<close>

fun write_seq ::
  "(int64 \<Rightarrow> string \<Rightarrow> string) \<Rightarrow> TimeRotatingFileHandler \<Rightarrow> bytes list \<Rightarrow> world \<Rightarrow>
     TimeRotatingFileHandler list" where
  "write_seq Format l [] w = []"
| "write_seq Format l (p # ps) w =
     (case Write Format l p w of
        (Panics v, l1, w1) \<Rightarrow> [l1]
      | (Returns r, l1, w1) \<Rightarrow> l1 # write_seq Format l1 ps w1)"

section \<open>Example states\<close>

text \<open>
  A directory \<^verbatim>\<open>/l\<close> with the log file \<^verbatim>\<open>/l/k\<close> open for appending, the clock at 100
  and then 101, 102, 103; the handler as \<^verbatim>\<open>newLogHandler\<close> leaves it, due for rollover
  at 100; and a rendering of times that ignores the time.
\<close>

definition world0 :: world where
  "world0 =
     \<lparr>dirs = [''/l''], entries = [(''/l/k'', 0)],
      inodes = [\<lparr>idata = ''old'', mtime = 40\<rparr>],
      free_inodes = 5, disk_free = 1000, handles = [(0, True)],
      now_unix = 100, future = [101, 102, 103], calls = []\<rparr>"

text \<open>A file system with nothing in it, the clock at 100.\<close>

definition world_new :: world where
  "world_new =
     \<lparr>dirs = [], entries = [], inodes = [], free_inodes = 5, disk_free = 1000,
      handles = [], now_unix = 100, future = [101, 102, 103], calls = []\<rparr>"

definition handler0 :: TimeRotatingFileHandler where
  "handler0 =
     \<lparr>fd = Some 0, baseName = ''/l/k'', interval = 60, suffix = ''2006'', rolloverAt = 100\<rparr>"

text \<open>The configuration at start-up, and the channel \<^verbatim>\<open>main\<close> makes, empty.\<close>

definition config0 :: ConfigStruct where
  "config0 =
     \<lparr>logPath = ''/l/k'', serverIp = ''127.0.0.1'', serverPort = ''9513'',
      handledNum = 0, startTime = 100\<rparr>"

definition chan0 :: chan where
  "chan0 = \<lparr>buf = [], cap = 2\<rparr>"

text \<open>
  Two workers about to call \<^verbatim>\<open>Write\<close> with the payloads \<^verbatim>\<open>a\<close> and \<^verbatim>\<open>b\<close>, the clock at
  99, one second before rollover is due.
\<close>

definition shared0 :: shared where
  "shared0 =
     \<lparr>handler = handler0, mux = None,
      os = world0\<lparr>now_unix := 99, future := [100, 101, 102]\<rparr>,
      running = [\<lparr>at = AtLock, payload = ''a'', now_local = 0\<rparr>,
                 \<lparr>at = AtLock, payload = ''b'', now_local = 0\<rparr>]\<rparr>"

text \<open>
  The two workers of \<^verbatim>\<open>main\<close> at the head of their loops, the payloads \<^verbatim>\<open>a\<close> and \<^verbatim>\<open>b\<close> in
  the channel, the counter at 0, and no rollover due before clock 1000.
\<close>

definition pool0 :: "(TimeRotatingFileHandler, world) pool" where
  "pool0 =
     \<lparr>logChannel = \<lparr>buf = [''a'', ''b''], cap = 2\<rparr>, chan_closed = False,
      writer = handler0\<lparr>rolloverAt := 1000\<rparr>, config = config0, files = world0,
      workers = [AtRecv, AtRecv]\<rparr>"

definition Format0 :: "int64 \<Rightarrow> string \<Rightarrow> string" where
  "Format0 t layout = CHR ''.'' # layout"

section \<open>Properties\<close>

subsection \<open>What the calls of the environment leave alone\<close>

lemma time_Now_fst [simp]: "fst (time_Now w) = now_unix w"
  by (simp add: time_Now_def)

lemma time_Now_frame [simp]:
  "calls (snd (time_Now w)) = calls w"
  "dirs (snd (time_Now w)) = dirs w"
  "entries (snd (time_Now w)) = entries w"
  "inodes (snd (time_Now w)) = inodes w"
  "handles (snd (time_Now w)) = handles w"
  "free_inodes (snd (time_Now w)) = free_inodes w"
  "disk_free (snd (time_Now w)) = disk_free w"
  by (simp_all add: time_Now_def split: list.splits)

lemma os_Close_frame [simp]:
  "calls (snd (os_Close f w)) = calls w @ [SysClose f]"
  "dirs (snd (os_Close f w)) = dirs w"
  "entries (snd (os_Close f w)) = entries w"
  "inodes (snd (os_Close f w)) = inodes w"
  "free_inodes (snd (os_Close f w)) = free_inodes w"
  "disk_free (snd (os_Close f w)) = disk_free w"
  "now_unix (snd (os_Close f w)) = now_unix w"
  "future (snd (os_Close f w)) = future w"
  by (simp_all add: os_Close_def logcall_def Let_def split: option.splits prod.splits)

lemma os_Rename_frame [simp]:
  "calls (snd (os_Rename a b w)) = calls w @ [SysRename a b]"
  "dirs (snd (os_Rename a b w)) = dirs w"
  "inodes (snd (os_Rename a b w)) = inodes w"
  "handles (snd (os_Rename a b w)) = handles w"
  "free_inodes (snd (os_Rename a b w)) = free_inodes w"
  "disk_free (snd (os_Rename a b w)) = disk_free w"
  "now_unix (snd (os_Rename a b w)) = now_unix w"
  "future (snd (os_Rename a b w)) = future w"
  by (simp_all add: os_Rename_def logcall_def Let_def split: option.splits)

lemma os_OpenFile_frame [simp]:
  "calls (snd (os_OpenFile p w)) = calls w @ [SysOpenFile p]"
  "dirs (snd (os_OpenFile p w)) = dirs w"
  "disk_free (snd (os_OpenFile p w)) = disk_free w"
  "now_unix (snd (os_OpenFile p w)) = now_unix w"
  "future (snd (os_OpenFile p w)) = future w"
  by (simp_all add: os_OpenFile_def logcall_def Let_def split: option.splits)

lemma os_Write_frame [simp]:
  "calls (snd (os_Write f b w)) = calls w @ [SysWrite f b]"
  "dirs (snd (os_Write f b w)) = dirs w"
  "entries (snd (os_Write f b w)) = entries w"
  "handles (snd (os_Write f b w)) = handles w"
  "free_inodes (snd (os_Write f b w)) = free_inodes w"
  "now_unix (snd (os_Write f b w)) = now_unix w"
  "future (snd (os_Write f b w)) = future w"
  "length (inodes (snd (os_Write f b w))) = length (inodes w)"
  by (simp_all add: os_Write_def logcall_def Let_def split: option.splits prod.splits)

lemma os_MkdirAll_frame [simp]:
  "calls (snd (os_MkdirAll d w)) = calls w @ [SysMkdirAll d]"
  "entries (snd (os_MkdirAll d w)) = entries w"
  "inodes (snd (os_MkdirAll d w)) = inodes w"
  "handles (snd (os_MkdirAll d w)) = handles w"
  "free_inodes (snd (os_MkdirAll d w)) = free_inodes w"
  "disk_free (snd (os_MkdirAll d w)) = disk_free w"
  "now_unix (snd (os_MkdirAll d w)) = now_unix w"
  "future (snd (os_MkdirAll d w)) = future w"
  by (simp_all add: os_MkdirAll_def logcall_def Let_def)

lemma os_Write_other_inodes:
  "lookup_handle w f \<noteq> Some (j, True) \<Longrightarrow> inodes (snd (os_Write f b w)) ! j = inodes w ! j"
  by (auto simp: os_Write_def logcall_def Let_def split: option.splits prod.splits)

lemma os_Write_success:
  assumes "os_Write f b w = ((n, None), w')"
  shows "n = int (length b) \<and>
         (\<exists>i. lookup_handle w f = Some (i, True) \<and> i < length (inodes w) \<and>
              idata (inodes w' ! i) = idata (inodes w ! i) @ b)"
  using assms
  by (auto simp: os_Write_def logcall_def Let_def min_def split: option.splits prod.splits if_splits)

lemma os_Rename_result:
  "entries w1 = entries w \<Longrightarrow> dirs w1 = dirs w \<Longrightarrow> fst (os_Rename a b w1) = fst (os_Rename a b w)"
  by (simp add: os_Rename_def Let_def split: option.splits)

lemma lookup_handle_time_Now [simp]:
  "lookup_handle (snd (time_Now w)) f = lookup_handle w f"
  by (simp add: lookup_handle_def split: option.splits)

lemma lookup_handle_cong:
  "handles w' = handles w \<Longrightarrow> lookup_handle w' f = lookup_handle w f"
  by (simp add: lookup_handle_def split: option.splits)

lemma os_Close_closes:
  "lookup_handle w f = Some (i, True) \<Longrightarrow> lookup_handle (snd (os_Close f w)) f = Some (i, False)"
  by (auto simp: os_Close_def lookup_handle_def logcall_def split: option.splits if_splits)

lemma os_OpenFile_keeps_handles:
  "lookup_handle w f = Some x \<Longrightarrow> lookup_handle (snd (os_OpenFile p w)) f = Some x"
  by (auto simp: os_OpenFile_def lookup_handle_def logcall_def Let_def nth_append
           split: option.splits if_splits)

lemma os_OpenFile_keeps_inodes:
  "j < length (inodes w) \<Longrightarrow> inodes (snd (os_OpenFile p w)) ! j = inodes w ! j"
  by (auto simp: os_OpenFile_def logcall_def Let_def nth_append split: option.splits)

lemma os_OpenFile_ok:
  assumes "snd (fst (os_OpenFile p w)) = None"
  shows "fst (fst (os_OpenFile p w)) = Some (length (handles w)) \<and>
         (\<exists>i. lookup_handle (snd (os_OpenFile p w)) (Some (length (handles w))) = Some (i, True) \<and>
              map_of (entries (snd (os_OpenFile p w))) p = Some i \<and>
              (map_of (entries w) p = None \<longrightarrow>
                 i = length (inodes w) \<and> idata (inodes (snd (os_OpenFile p w)) ! i) = []))"
  using assms
  by (auto simp: os_OpenFile_def lookup_handle_def logcall_def Let_def
           split: option.splits if_splits)

lemma map_of_filter_out:
  "map_of (filter (\<lambda>e. fst e \<noteq> a \<and> fst e \<noteq> b) es) a = None"
  by (induction es) auto

lemma os_Rename_ok:
  assumes "fst (os_Rename a b w) = None"
  shows "map_of (entries (snd (os_Rename a b w))) b = map_of (entries w) a \<and>
         (a \<noteq> b \<longrightarrow> map_of (entries (snd (os_Rename a b w))) a = None)"
  using assms
  by (auto simp: os_Rename_def logcall_def Let_def map_of_filter_out
           split: option.splits if_splits)

lemma os_OpenFile_keeps_entries:
  "q \<noteq> p \<Longrightarrow> map_of (entries (snd (os_OpenFile p w))) q = map_of (entries w) q"
  by (auto simp: os_OpenFile_def logcall_def Let_def split: option.splits)

lemma os_OpenFile_entry_same:
  "map_of (entries w) p \<noteq> None \<Longrightarrow> entries (snd (os_OpenFile p w)) = entries w"
  by (auto simp: os_OpenFile_def logcall_def Let_def split: option.splits)

lemma list_ex_update:
  "\<not> list_ex P xs \<Longrightarrow> \<not> P x \<Longrightarrow> \<not> list_ex P (xs[t := x])"
  using set_update_subset_insert [of xs t x] by (auto simp: list_ex_iff)

lemma new_calls_append [simp]: "calls w' = calls w @ cs \<Longrightarrow> new_calls w w' = cs"
  by (simp add: new_calls_def)

subsection \<open>doRollover\<close>

lemma doRollover_not_due:
  "\<not> sint (rolloverAt l) \<le> sint (now_unix w) \<Longrightarrow>
     doRollover Format l w = (Returns (), l, snd (time_Now w))"
  by (simp add: doRollover_def case_prod_unfold)

lemma doRollover_due_calls:
  "sint (rolloverAt l) \<le> sint (now_unix w) \<Longrightarrow>
     take 2 (new_calls w (snd (snd (doRollover Format l w)))) =
       [SysClose (fd l), SysRename (baseName l) (baseName l @ Format (now_unix w) (suffix l))]"
  by (simp add: doRollover_def new_calls_def case_prod_unfold Let_def split: option.splits)

lemma doRollover_due_renamed:
  assumes due: "sint (rolloverAt l) \<le> sint (now_unix w)"
      and ok: "fst (os_Rename (baseName l) (baseName l @ Format (now_unix w) (suffix l)) w) = None"
  shows "doRollover Format l w =
      (Returns (),
       l\<lparr>fd := fst (fst (os_OpenFile (baseName l)
                (snd (os_Rename (baseName l) (baseName l @ Format (now_unix w) (suffix l))
                  (snd (os_Close (fd l) (snd (time_Now w)))))))),
         rolloverAt := now_unix (snd (time_Now w)) + interval l\<rparr>,
       snd (time_Now (snd (os_OpenFile (baseName l)
                (snd (os_Rename (baseName l) (baseName l @ Format (now_unix w) (suffix l))
                  (snd (os_Close (fd l) (snd (time_Now w))))))))))"
proof -
  let ?w1 = "snd (os_Close (fd l) (snd (time_Now w)))"
  let ?fName = "baseName l @ Format (now_unix w) (suffix l)"
  have "fst (os_Rename (baseName l) ?fName ?w1) = None"
    using ok os_Rename_result [of ?w1 w "baseName l" ?fName] by simp
  with due show ?thesis
    by (simp add: doRollover_def case_prod_unfold Let_def)
qed

lemma doRollover_due_failed:
  assumes due: "sint (rolloverAt l) \<le> sint (now_unix w)"
      and fail: "fst (os_Rename (baseName l) (baseName l @ Format (now_unix w) (suffix l)) w) = Some e"
  shows "doRollover Format l w =
      (Panics (PanicError e), l,
       snd (os_Rename (baseName l) (baseName l @ Format (now_unix w) (suffix l))
             (snd (os_Close (fd l) (snd (time_Now w))))))"
proof -
  let ?w1 = "snd (os_Close (fd l) (snd (time_Now w)))"
  let ?fName = "baseName l @ Format (now_unix w) (suffix l)"
  have "fst (os_Rename (baseName l) ?fName ?w1) = Some e"
    using fail os_Rename_result [of ?w1 w "baseName l" ?fName] by simp
  with due show ?thesis
    by (simp add: doRollover_def case_prod_unfold Let_def)
qed


lemma os_Rename_source:
  "fst (os_Rename a b w) = None \<Longrightarrow> map_of (entries w) a \<noteq> None"
  by (auto simp: os_Rename_def Let_def split: option.splits)

lemma doRollover_renamed_effects:
  assumes due: "sint (rolloverAt l) \<le> sint (now_unix w)"
      and ok: "fst (os_Rename (baseName l) (baseName l @ Format (now_unix w) (suffix l)) w) = None"
  defines "fName \<equiv> baseName l @ Format (now_unix w) (suffix l)"
      and "w2 \<equiv> snd (os_Rename (baseName l) (baseName l @ Format (now_unix w) (suffix l))
                   (snd (os_Close (fd l) (snd (time_Now w)))))"
      and "l' \<equiv> fst (snd (doRollover Format l w))"
      and "w' \<equiv> snd (snd (doRollover Format l w))"
  shows "new_calls w w' = [SysClose (fd l), SysRename (baseName l) fName, SysOpenFile (baseName l)]"
    and "map_of (entries w') fName = map_of (entries w) (baseName l)"
    and "\<forall>j < length (inodes w). inodes w' ! j = inodes w ! j"
    and "\<forall>i. lookup_handle w (fd l) = Some (i, True) \<longrightarrow> lookup_handle w' (fd l) = Some (i, False)"
    and "snd (fst (os_OpenFile (baseName l) w2)) = None \<longrightarrow>
           fd l' = Some (length (handles w)) \<and>
           (\<exists>i. lookup_handle w' (fd l') = Some (i, True) \<and>
                map_of (entries w') (baseName l) = Some i \<and>
                (fName \<noteq> baseName l \<longrightarrow> i = length (inodes w) \<and> idata (inodes w' ! i) = []))"
    and "\<forall>e. snd (fst (os_OpenFile (baseName l) w2)) = Some e \<longrightarrow> fd l' = None"
proof -
  let ?w0 = "snd (time_Now w)"
  let ?w1 = "snd (os_Close (fd l) ?w0)"
  let ?w3 = "snd (os_OpenFile (baseName l) w2)"
  have ok1: "fst (os_Rename (baseName l) fName ?w1) = None"
    using ok os_Rename_result [of ?w1 w "baseName l" fName] by (simp add: fName_def)
  have w2: "w2 = snd (os_Rename (baseName l) fName ?w1)"
    by (simp add: w2_def fName_def)
  have d: "doRollover Format l w =
      (Returns (), l\<lparr>fd := fst (fst (os_OpenFile (baseName l) w2)),
                     rolloverAt := now_unix ?w0 + interval l\<rparr>, snd (time_Now ?w3))"
    using doRollover_due_renamed [where Format = Format and l = l and w = w, OF due ok]
    by (simp add: w2_def)
  have l': "fd l' = fst (fst (os_OpenFile (baseName l) w2))" and w': "w' = snd (time_Now ?w3)"
    by (simp_all add: l'_def w'_def d)
  show "new_calls w w' = [SysClose (fd l), SysRename (baseName l) fName, SysOpenFile (baseName l)]"
    by (simp add: w' w2)
  have e2: "map_of (entries w2) fName = map_of (entries w) (baseName l)"
    and e2': "fName \<noteq> baseName l \<Longrightarrow> map_of (entries w2) (baseName l) = None"
    using os_Rename_ok [OF ok1] by (simp_all add: w2)
  have src: "map_of (entries w2) fName \<noteq> None"
    using os_Rename_source [OF ok] e2 by (simp add: fName_def)
  show "map_of (entries w') fName = map_of (entries w) (baseName l)"
  proof (cases "fName = baseName l")
    case True
    with src have "entries ?w3 = entries w2"
      by (simp add: os_OpenFile_entry_same)
    with e2 show ?thesis by (simp add: w')
  next
    case False
    then show ?thesis
      using e2 by (simp add: w' os_OpenFile_keeps_entries)
  qed
  have in2: "inodes w2 = inodes w" "handles w2 = handles ?w1"
    by (simp_all add: w2)
  show "\<forall>j < length (inodes w). inodes w' ! j = inodes w ! j"
    using os_OpenFile_keeps_inodes [of _ w2 "baseName l"] by (simp add: w' in2)
  show "\<forall>i. lookup_handle w (fd l) = Some (i, True) \<longrightarrow> lookup_handle w' (fd l) = Some (i, False)"
  proof (intro allI impI)
    fix i assume "lookup_handle w (fd l) = Some (i, True)"
    then have "lookup_handle ?w0 (fd l) = Some (i, True)" by simp
    then have "lookup_handle ?w1 (fd l) = Some (i, False)" by (rule os_Close_closes)
    then have "lookup_handle w2 (fd l) = Some (i, False)"
      using lookup_handle_cong [OF in2(2)] by simp
    then have "lookup_handle ?w3 (fd l) = Some (i, False)" by (rule os_OpenFile_keeps_handles)
    then show "lookup_handle w' (fd l) = Some (i, False)" by (simp add: w')
  qed
  have len: "length (handles w2) = length (handles w)" "length (inodes w2) = length (inodes w)"
    by (simp_all add: in2 os_Close_def logcall_def Let_def split: option.splits prod.splits)
  show "snd (fst (os_OpenFile (baseName l) w2)) = None \<longrightarrow>
           fd l' = Some (length (handles w)) \<and>
           (\<exists>i. lookup_handle w' (fd l') = Some (i, True) \<and>
                map_of (entries w') (baseName l) = Some i \<and>
                (fName \<noteq> baseName l \<longrightarrow> i = length (inodes w) \<and> idata (inodes w' ! i) = []))"
  proof
    assume "snd (fst (os_OpenFile (baseName l) w2)) = None"
    from os_OpenFile_ok [OF this] e2' show "fd l' = Some (length (handles w)) \<and>
           (\<exists>i. lookup_handle w' (fd l') = Some (i, True) \<and>
                map_of (entries w') (baseName l) = Some i \<and>
                (fName \<noteq> baseName l \<longrightarrow> i = length (inodes w) \<and> idata (inodes w' ! i) = []))"
      by (auto simp: l' w' len)
  qed
  show "\<forall>e. snd (fst (os_OpenFile (baseName l) w2)) = Some e \<longrightarrow> fd l' = None"
    by (auto simp: l' os_OpenFile_def Let_def split: option.splits if_splits)
qed

text \<open>
  Claim C7. For every state of the writer and every clock reading, \<open>doRollover\<close> performs
  a rollover if and only if \<open>rolloverAt \<le> now\<close> (signed comparison), the tie included.
  When the test fails the handler is returned as it was and nothing but the clock
  reading has happened. When it holds, the rollover is what is performed: the current
  file is closed and the base path renamed to the timestamped name; if the rename fails
  the call panics with its error there; otherwise the base path is reopened, \<open>fd\<close> is
  the result of that open and \<open>rolloverAt\<close> the next clock reading plus the interval,
  the previous contents are found under the timestamped name, the old file object is
  closed, and when the reopen succeeds \<open>fd\<close> is a new open file on the base path, which
  is a new empty file unless the timestamped name is the base path itself.
\<close>

theorem doRollover_due_iff:
  defines "fName Format l w \<equiv> baseName l @ Format (now_unix w) (suffix l)"
      and "w2 Format l w \<equiv>
             snd (os_Rename (baseName l) (baseName l @ Format (now_unix w) (suffix l))
                   (snd (os_Close (fd l) (snd (time_Now w)))))"
      and "l' Format l w \<equiv> fst (snd (doRollover Format l w))"
      and "w' Format l w \<equiv> snd (snd (doRollover Format l w))"
  shows
  "((take 2 (new_calls w (w' Format l w)) =
       [SysClose (fd l), SysRename (baseName l) (fName Format l w)])
     = (sint (rolloverAt l) \<le> sint (now_unix w))) \<and>
   ((doRollover Format l w = (Returns (), l, snd (time_Now w)))
     = (\<not> sint (rolloverAt l) \<le> sint (now_unix w))) \<and>
   (sint (rolloverAt l) \<le> sint (now_unix w) \<longrightarrow>
      (\<forall>e. fst (os_Rename (baseName l) (fName Format l w) w) = Some e \<longrightarrow>
         doRollover Format l w = (Panics (PanicError e), l, w2 Format l w) \<and>
         new_calls w (w' Format l w) =
           [SysClose (fd l), SysRename (baseName l) (fName Format l w)]) \<and>
      (fst (os_Rename (baseName l) (fName Format l w) w) = None \<longrightarrow>
         doRollover Format l w =
           (Returns (),
            l\<lparr>fd := fst (fst (os_OpenFile (baseName l) (w2 Format l w))),
              rolloverAt := now_unix (snd (time_Now w)) + interval l\<rparr>,
            snd (time_Now (snd (os_OpenFile (baseName l) (w2 Format l w))))) \<and>
         new_calls w (w' Format l w) =
           [SysClose (fd l), SysRename (baseName l) (fName Format l w),
            SysOpenFile (baseName l)] \<and>
         map_of (entries (w' Format l w)) (fName Format l w) = map_of (entries w) (baseName l) \<and>
         (\<forall>j < length (inodes w). inodes (w' Format l w) ! j = inodes w ! j) \<and>
         (\<forall>i. lookup_handle w (fd l) = Some (i, True) \<longrightarrow>
              lookup_handle (w' Format l w) (fd l) = Some (i, False)) \<and>
         (snd (fst (os_OpenFile (baseName l) (w2 Format l w))) = None \<longrightarrow>
            fd (l' Format l w) = Some (length (handles w)) \<and>
            (\<exists>i. lookup_handle (w' Format l w) (fd (l' Format l w)) = Some (i, True) \<and>
                 map_of (entries (w' Format l w)) (baseName l) = Some i \<and>
                 (fName Format l w \<noteq> baseName l \<longrightarrow>
                    i = length (inodes w) \<and> idata (inodes (w' Format l w) ! i) = []))) \<and>
         (\<forall>e. snd (fst (os_OpenFile (baseName l) (w2 Format l w))) = Some e \<longrightarrow>
              fd (l' Format l w) = None)))"
proof (cases "sint (rolloverAt l) \<le> sint (now_unix w)")
  case False
  from doRollover_not_due [OF False, of Format] False show ?thesis
    by (simp add: new_calls_def w'_def)
next
  case True
  from doRollover_due_calls [OF True, of Format]
  have c: "take 2 (new_calls w (w' Format l w)) =
       [SysClose (fd l), SysRename (baseName l) (fName Format l w)]"
    by (simp add: w'_def fName_def)
  have n: "doRollover Format l w \<noteq> (Returns (), l, snd (time_Now w))"
  proof
    assume "doRollover Format l w = (Returns (), l, snd (time_Now w))"
    with c show False by (simp add: new_calls_def w'_def)
  qed
  have i1: "(take 2 (new_calls w (w' Format l w)) =
       [SysClose (fd l), SysRename (baseName l) (fName Format l w)])
     = (sint (rolloverAt l) \<le> sint (now_unix w))"
    using c True by simp
  have i2: "(doRollover Format l w = (Returns (), l, snd (time_Now w)))
     = (\<not> sint (rolloverAt l) \<le> sint (now_unix w))"
    using n True by simp
  show ?thesis
  proof (cases "fst (os_Rename (baseName l) (fName Format l w) w)")
    case (Some e)
    then have f: "fst (os_Rename (baseName l) (baseName l @ Format (now_unix w) (suffix l)) w) = Some e"
      by (simp add: fName_def)
    have d: "doRollover Format l w = (Panics (PanicError e), l, w2 Format l w)"
      using doRollover_due_failed [where Format = Format and l = l and w = w, OF True f]
      by (simp add: w2_def)
    have nc: "new_calls w (w' Format l w) =
           [SysClose (fd l), SysRename (baseName l) (fName Format l w)]"
      by (simp add: w'_def d w2_def fName_def)
    have a: "\<forall>e. fst (os_Rename (baseName l) (fName Format l w) w) = Some e \<longrightarrow>
         doRollover Format l w = (Panics (PanicError e), l, w2 Format l w) \<and>
         new_calls w (w' Format l w) =
           [SysClose (fd l), SysRename (baseName l) (fName Format l w)]"
      using Some d nc by simp
    have b: "fst (os_Rename (baseName l) (fName Format l w) w) \<noteq> None"
      using Some by simp
    from i1 i2 a b show ?thesis by blast
  next
    case None
    then have f: "fst (os_Rename (baseName l) (baseName l @ Format (now_unix w) (suffix l)) w) = None"
      by (simp add: fName_def)
    note eff = doRollover_renamed_effects [where Format = Format and l = l and w = w, OF True f]
    have a: "\<forall>e. fst (os_Rename (baseName l) (fName Format l w) w) = Some e \<longrightarrow>
         doRollover Format l w = (Panics (PanicError e), l, w2 Format l w) \<and>
         new_calls w (w' Format l w) =
           [SysClose (fd l), SysRename (baseName l) (fName Format l w)]"
      using None by simp
    have d: "doRollover Format l w =
           (Returns (),
            l\<lparr>fd := fst (fst (os_OpenFile (baseName l) (w2 Format l w))),
              rolloverAt := now_unix (snd (time_Now w)) + interval l\<rparr>,
            snd (time_Now (snd (os_OpenFile (baseName l) (w2 Format l w)))))"
      using doRollover_due_renamed [where Format = Format and l = l and w = w, OF True f]
      by (simp add: w2_def)
    have e1: "new_calls w (w' Format l w) =
           [SysClose (fd l), SysRename (baseName l) (fName Format l w),
            SysOpenFile (baseName l)]"
      unfolding w'_def fName_def by (rule eff(1))
    have e2: "map_of (entries (w' Format l w)) (fName Format l w) = map_of (entries w) (baseName l)"
      unfolding w'_def fName_def by (rule eff(2))
    have e3: "\<forall>j < length (inodes w). inodes (w' Format l w) ! j = inodes w ! j"
      unfolding w'_def by (rule eff(3))
    have e4: "\<forall>i. lookup_handle w (fd l) = Some (i, True) \<longrightarrow>
              lookup_handle (w' Format l w) (fd l) = Some (i, False)"
      unfolding w'_def by (rule eff(4))
    have e5: "snd (fst (os_OpenFile (baseName l) (w2 Format l w))) = None \<longrightarrow>
            fd (l' Format l w) = Some (length (handles w)) \<and>
            (\<exists>i. lookup_handle (w' Format l w) (fd (l' Format l w)) = Some (i, True) \<and>
                 map_of (entries (w' Format l w)) (baseName l) = Some i \<and>
                 (fName Format l w \<noteq> baseName l \<longrightarrow>
                    i = length (inodes w) \<and> idata (inodes (w' Format l w) ! i) = []))"
      unfolding w'_def l'_def w2_def fName_def by (rule eff(5))
    have e6: "\<forall>e. snd (fst (os_OpenFile (baseName l) (w2 Format l w))) = Some e \<longrightarrow>
              fd (l' Format l w) = None"
      unfolding l'_def w2_def by (rule eff(6))
    from i1 i2 a d e1 e2 e3 e4 e5 e6 show ?thesis by blast
  qed
qed

text \<open>The tie: at \<open>rolloverAt = now = 100\<close> the rollover is performed.\<close>

theorem doRollover_due_iff_witness:
  "sint (rolloverAt handler0) = sint (now_unix world0) \<and>
   take 2 (new_calls world0 (snd (snd (doRollover Format0 handler0 world0)))) =
     [SysClose (Some 0), SysRename ''/l/k'' ''/l/k.2006''] \<and>
   fst (os_Rename ''/l/k'' ''/l/k.2006'' world0) = None \<and>
   fst (doRollover Format0 handler0 world0) = Returns () \<and>
   fst (snd (doRollover Format0 handler0 world0)) =
     \<lparr>fd = Some 1, baseName = ''/l/k'', interval = 60, suffix = ''2006'', rolloverAt = 161\<rparr> \<and>
   entries (snd (snd (doRollover Format0 handler0 world0))) =
     [(''/l/k'', 1), (''/l/k.2006'', 0)] \<and>
   map idata (inodes (snd (snd (doRollover Format0 handler0 world0)))) = [''old'', ''''] \<and>
   handles (snd (snd (doRollover Format0 handler0 world0))) = [(0, False), (1, True)]"
proof -
  have tie: "sint (rolloverAt handler0) = sint (now_unix world0)"
    by (simp add: handler0_def world0_def)
  have nm: "\<And>t. Format0 t (suffix handler0) = ''.2006''"
    "baseName handler0 = ''/l/k''" "fd handler0 = Some 0"
    by (simp_all add: handler0_def Format0_def)
  from doRollover_due_iff [of world0 Format0 handler0] tie
  have c: "take 2 (new_calls world0 (snd (snd (doRollover Format0 handler0 world0)))) =
     [SysClose (Some 0), SysRename ''/l/k'' ''/l/k.2006'']"
    by (simp add: nm)
  have ev: "fst (os_Rename ''/l/k'' ''/l/k.2006'' world0) = None \<and>
   fst (doRollover Format0 handler0 world0) = Returns () \<and>
   fst (snd (doRollover Format0 handler0 world0)) =
     \<lparr>fd = Some 1, baseName = ''/l/k'', interval = 60, suffix = ''2006'', rolloverAt = 161\<rparr> \<and>
   entries (snd (snd (doRollover Format0 handler0 world0))) =
     [(''/l/k'', 1), (''/l/k.2006'', 0)] \<and>
   map idata (inodes (snd (snd (doRollover Format0 handler0 world0)))) = [''old'', ''''] \<and>
   handles (snd (snd (doRollover Format0 handler0 world0))) = [(0, False), (1, True)]"
    by code_simp
  from tie c ev show ?thesis by blast
qed

subsection \<open>Write\<close>

lemma Write_not_due:
  "\<not> sint (rolloverAt l) \<le> sint (now_unix w) \<Longrightarrow>
     Write Format l p w =
       (Returns (fst (fmt_Fprintln (fd l) p (snd (time_Now w)))), l,
        snd (fmt_Fprintln (fd l) p (snd (time_Now w))))"
  by (simp add: Write_def doRollover_not_due case_prod_unfold Let_def)

text \<open>
  Claim C10. When \<^verbatim>\<open>Write\<close> is called at a clock time with \<open>rolloverAt > now\<close>, it
  returns the handler with every field as it was (\<open>fd\<close>, \<open>baseName\<close>, \<open>interval\<close>,
  \<open>suffix\<close>, \<open>rolloverAt\<close>), and the world it leaves is the one the single
  \<^verbatim>\<open>Fprintln\<close> leaves after the clock was read: one write call, on the current
  file, with directories, directory entries, open files and every other inode
  untouched.
\<close>

theorem Write_no_rollover_frame:
  assumes "\<not> sint (rolloverAt l) \<le> sint (now_unix w)"
  shows "fst (snd (Write Format l p w)) = l \<and>
         (\<exists>r. fst (Write Format l p w) = Returns r) \<and>
         snd (snd (Write Format l p w)) = snd (fmt_Fprintln (fd l) p (snd (time_Now w))) \<and>
         new_calls w (snd (snd (Write Format l p w))) = [SysWrite (fd l) (p @ [CHR 0x0A])] \<and>
         dirs (snd (snd (Write Format l p w))) = dirs w \<and>
         entries (snd (snd (Write Format l p w))) = entries w \<and>
         handles (snd (snd (Write Format l p w))) = handles w \<and>
         free_inodes (snd (snd (Write Format l p w))) = free_inodes w \<and>
         length (inodes (snd (snd (Write Format l p w)))) = length (inodes w) \<and>
         (\<forall>j. lookup_handle w (fd l) \<noteq> Some (j, True) \<longrightarrow>
              inodes (snd (snd (Write Format l p w))) ! j = inodes w ! j)"
proof -
  have lh: "lookup_handle (snd (time_Now w)) (fd l) = lookup_handle w (fd l)"
    by (simp add: lookup_handle_def split: option.splits)
  show ?thesis
    unfolding Write_not_due [OF assms]
    by (simp add: fmt_Fprintln_def os_Write_other_inodes lh)
qed

text \<open>At clock 100 with \<open>rolloverAt = 101\<close>.\<close>

theorem Write_no_rollover_frame_witness:
  "\<not> sint (rolloverAt (handler0\<lparr>rolloverAt := 101\<rparr>)) \<le> sint (now_unix world0) \<and>
   fst (snd (Write Format0 (handler0\<lparr>rolloverAt := 101\<rparr>) ''hi'' world0)) =
     handler0\<lparr>rolloverAt := 101\<rparr> \<and>
   new_calls world0 (snd (snd (Write Format0 (handler0\<lparr>rolloverAt := 101\<rparr>) ''hi'' world0))) =
     [SysWrite (Some 0) ''hi\<newline>'']"
proof -
  let ?l = "handler0\<lparr>rolloverAt := 101\<rparr>"
  have h: "\<not> sint (rolloverAt ?l) \<le> sint (now_unix world0)"
    by (simp add: world0_def)
  have f: "fd ?l = Some 0"
    by (simp add: handler0_def)
  from Write_no_rollover_frame [OF h, of Format0 "''hi''"]
  have "fst (snd (Write Format0 ?l ''hi'' world0)) = ?l \<and>
        new_calls world0 (snd (snd (Write Format0 ?l ''hi'' world0))) =
          [SysWrite (fd ?l) (''hi'' @ [CHR 0x0A])]"
    by blast
  with h f show ?thesis by simp
qed

text \<open>
  Claim C9. When \<^verbatim>\<open>Write\<close> returns \<^verbatim>\<open>(n, nil)\<close>, then \<open>n = len(p) + 1\<close>, and the file
  of the handler's \<open>fd\<close>, compared with the world that \<open>doRollover\<close> left, has grown
  by exactly the bytes of \<open>p\<close> followed by one newline; no other inode has changed and
  the only call made after \<open>doRollover\<close> is that one write.
\<close>

theorem Write_success_appends:
  assumes "Write Format l p w = (Returns (n, None), l', w')"
  shows "n = int (length p) + 1 \<and>
         l' = fst (snd (doRollover Format l w)) \<and>
         (\<exists>i. lookup_handle (snd (snd (doRollover Format l w))) (fd l') = Some (i, True) \<and>
              i < length (inodes (snd (snd (doRollover Format l w)))) \<and>
              idata (inodes w' ! i) =
                idata (inodes (snd (snd (doRollover Format l w))) ! i) @ p @ [CHR 0x0A] \<and>
              length (inodes w') = length (inodes (snd (snd (doRollover Format l w)))) \<and>
              (\<forall>j. j \<noteq> i \<longrightarrow> inodes w' ! j = inodes (snd (snd (doRollover Format l w))) ! j)) \<and>
         new_calls (snd (snd (doRollover Format l w))) w' = [SysWrite (fd l') (p @ [CHR 0x0A])]"
proof -
  obtain r l1 w1 where d: "doRollover Format l w = (r, l1, w1)"
    by (cases "doRollover Format l w") auto
  from assms d obtain u where r: "r = Returns u"
    by (cases r) (auto simp: Write_def)
  from assms d r have l1: "l' = l1" and wr: "os_Write (fd l1) (p @ [CHR 0x0A]) w1 = ((n, None), w')"
    by (auto simp: Write_def fmt_Fprintln_def case_prod_unfold prod_eq_iff Let_def)
  from os_Write_success [OF wr] obtain i where
    n: "n = int (length (p @ [CHR 0x0A]))" and
    i: "lookup_handle w1 (fd l1) = Some (i, True)" "i < length (inodes w1)"
       "idata (inodes w' ! i) = idata (inodes w1 ! i) @ p @ [CHR 0x0A]"
    by auto
  have w': "w' = snd (os_Write (fd l1) (p @ [CHR 0x0A]) w1)"
    using wr by simp
  have other: "\<forall>j. j \<noteq> i \<longrightarrow> inodes w' ! j = inodes w1 ! j"
    using i(1) by (auto simp: w' intro!: os_Write_other_inodes)
  show ?thesis using n i other d l1
    by (simp add: w')
qed

lemmas env_defs =
  time_Now_def os_Close_def os_Rename_def os_OpenFile_def os_Write_def os_MkdirAll_def
  os_Stat_ModTime_def fmt_Fprintln_def logcall_def lookup_handle_def fs_parent_def Let_def

lemmas example_defs = world0_def handler0_def Format0_def

text \<open>A rollover, then \<^verbatim>\<open>hi\<close> and a newline in the fresh file: three bytes.\<close>

theorem Write_success_appends_witness:
  "fst (Write Format0 handler0 ''hi'' world0) = Returns (3, None) \<and>
   (3::int) = int (length ''hi'') + 1 \<and>
   map idata (inodes (snd (snd (Write Format0 handler0 ''hi'' world0)))) = [''old'', ''hi\<newline>'']"
proof -
  have r: "fst (Write Format0 handler0 ''hi'' world0) = Returns (3, None)"
    by (simp add: Write_def doRollover_def example_defs env_defs)
  have c: "map idata (inodes (snd (snd (Write Format0 handler0 ''hi'' world0)))) =
             [''old'', ''hi\<newline>'']"
    by (simp add: Write_def doRollover_def example_defs env_defs)
  from r have "Write Format0 handler0 ''hi'' world0 =
      (Returns (3, None), fst (snd (Write Format0 handler0 ''hi'' world0)),
       snd (snd (Write Format0 handler0 ''hi'' world0)))"
    by (simp add: prod_eq_iff)
  from Write_success_appends [OF this] have "(3::int) = int (length ''hi'') + 1"
    by blast
  with r c show ?thesis by blast
qed

text \<open>
  Claim C2, as amended. When rollover is due and the rename of the base path to the
  timestamped name fails with error \<open>e\<close>, \<^verbatim>\<open>Write\<close> does not return: it panics with
  \<open>e\<close>. The handler is as before; the file has been closed and the rename attempted,
  and neither the reopen nor the append takes place.
\<close>

theorem Write_rename_failure_panics:
  assumes due: "sint (rolloverAt l) \<le> sint (now_unix w)"
      and fail: "fst (os_Rename (baseName l) (baseName l @ Format (now_unix w) (suffix l)) w) = Some e"
  shows "fst (Write Format l p w) = Panics (PanicError e) \<and>
         fst (snd (Write Format l p w)) = l \<and>
         new_calls w (snd (snd (Write Format l p w))) =
           [SysClose (fd l),
            SysRename (baseName l) (baseName l @ Format (now_unix w) (suffix l))]"
proof -
  let ?w1 = "snd (os_Close (fd l) (snd (time_Now w)))"
  let ?fName = "baseName l @ Format (now_unix w) (suffix l)"
  have "fst (os_Rename (baseName l) ?fName ?w1) = Some e"
    using fail os_Rename_result [of ?w1 w "baseName l" ?fName] by simp
  then have d: "doRollover Format l w =
      (Panics (PanicError e), l, snd (os_Rename (baseName l) ?fName ?w1))"
    using due by (simp add: doRollover_def case_prod_unfold Let_def)
  show ?thesis
    by (simp add: Write_def d new_calls_def)
qed

text \<open>The log file was unlinked while open: the rename fails with \<^verbatim>\<open>ENOENT\<close>.\<close>

theorem Write_rename_failure_panics_witness:
  "sint (rolloverAt handler0) \<le> sint (now_unix (world0\<lparr>entries := []\<rparr>)) \<and>
   fst (os_Rename ''/l/k'' ''/l/k.2006'' (world0\<lparr>entries := []\<rparr>)) = Some ENOENT \<and>
   fst (Write Format0 handler0 ''hi'' (world0\<lparr>entries := []\<rparr>)) = Panics (PanicError ENOENT) \<and>
   new_calls (world0\<lparr>entries := []\<rparr>)
     (snd (snd (Write Format0 handler0 ''hi'' (world0\<lparr>entries := []\<rparr>)))) =
       [SysClose (Some 0), SysRename ''/l/k'' ''/l/k.2006'']"
proof -
  let ?w = "world0\<lparr>entries := []\<rparr>"
  have due: "sint (rolloverAt handler0) \<le> sint (now_unix ?w)"
    by (simp add: example_defs)
  have nm: "\<And>t. Format0 t (suffix handler0) = ''.2006''"
    "baseName handler0 = ''/l/k''" "fd handler0 = Some 0"
    by (simp_all add: example_defs)
  have fail: "fst (os_Rename (baseName handler0)
      (baseName handler0 @ Format0 (now_unix ?w) (suffix handler0)) ?w) = Some ENOENT"
    by (simp add: example_defs env_defs)
  from Write_rename_failure_panics
    [where Format = Format0 and l = handler0 and p = "''hi''", OF due fail] due fail
  show ?thesis by (simp add: nm)
qed

text \<open>
  Claim C2 as stated fails. With the log file unlinked, the rename fails and \<^verbatim>\<open>Write\<close>
  panics instead of returning the error. With no free inode, the rename succeeds, the
  reopen fails with \<^verbatim>\<open>ENOSPC\<close>, that error is dropped, \<open>fd\<close> becomes nil, and \<^verbatim>\<open>Write\<close>
  returns the error of writing to a nil file instead.
\<close>

theorem Write_rollover_errors_not_returned:
  "sint (rolloverAt handler0) \<le> sint (now_unix world0) \<and>
   fst (os_Rename ''/l/k'' ''/l/k.2006'' (world0\<lparr>entries := []\<rparr>)) = Some ENOENT \<and>
   fst (Write Format0 handler0 ''hi'' (world0\<lparr>entries := []\<rparr>)) = Panics (PanicError ENOENT) \<and>
   fst (os_OpenFile ''/l/k''
     (snd (os_Rename ''/l/k'' ''/l/k.2006''
       (snd (os_Close (Some 0) (snd (time_Now (world0\<lparr>free_inodes := 0\<rparr>)))))))) =
     (None, Some ENOSPC) \<and>
   fst (Write Format0 handler0 ''hi'' (world0\<lparr>free_inodes := 0\<rparr>)) = Returns (0, Some ErrInvalid)"
  by (simp add: Write_def doRollover_def example_defs env_defs)

subsection \<open>rolloverAt\<close>

lemma clock_readings_frame [simp]:
  "clock_readings (snd (os_Close f w)) = clock_readings w"
  "clock_readings (snd (os_Rename a b w)) = clock_readings w"
  "clock_readings (snd (os_OpenFile a w)) = clock_readings w"
  "clock_readings (snd (os_Write f d w)) = clock_readings w"
  "clock_readings (snd (fmt_Fprintln f d w)) = clock_readings w"
  by (simp_all add: clock_readings_def fmt_Fprintln_def)

lemma now_unix_Fprintln [simp]: "now_unix (snd (fmt_Fprintln f d w)) = now_unix w"
  by (simp add: fmt_Fprintln_def)

lemma clock_ok_time_Now: "clock_ok iv w \<Longrightarrow> clock_ok iv (snd (time_Now w))"
  by (auto simp: clock_ok_def clock_readings_def time_Now_def split: list.splits)

lemma clock_ok_next: "clock_ok iv w \<Longrightarrow> sint (now_unix w) \<le> sint (now_unix (snd (time_Now w)))"
  by (auto simp: clock_ok_def clock_readings_def time_Now_def split: list.splits)

lemma clock_ok_now: "clock_ok iv w \<Longrightarrow> sint (now_unix w) + sint iv < 2 ^ 63"
  by (simp add: clock_ok_def clock_readings_def)

lemma clock_ok_cong: "clock_readings w' = clock_readings w \<Longrightarrow> clock_ok iv w' = clock_ok iv w"
  by (simp add: clock_ok_def)

lemma sint_add_in_range:
  fixes a b :: int64
  assumes "- (2 ^ 63) \<le> sint a + sint b" and "sint a + sint b < 2 ^ 63"
  shows "sint (a + b) = sint a + sint b"
  using assms by (simp add: sint_word_add signed_take_bit_int_eq_self)

lemma doRollover_handler:
  "fst (snd (doRollover Format l w)) = l \<or>
   (sint (rolloverAt l) \<le> sint (now_unix w) \<and>
    (\<exists>f. fst (snd (doRollover Format l w)) =
           l\<lparr>fd := f, rolloverAt := now_unix (snd (time_Now w)) + interval l\<rparr>))"
  by (auto simp: doRollover_def case_prod_unfold Let_def time_Now_def split: option.splits list.splits)


lemma doRollover_clock_ok:
  assumes ok: "clock_ok iv w"
  shows "clock_ok iv (snd (snd (doRollover Format l w)))"
proof (cases "sint (rolloverAt l) \<le> sint (now_unix w)")
  case False
  then show ?thesis
    using clock_ok_time_Now [OF ok] by (simp add: doRollover_not_due)
next
  case True
  let ?w0 = "snd (time_Now w)"
  let ?w1 = "snd (os_Close (fd l) ?w0)"
  let ?r = "os_Rename (baseName l) (baseName l @ Format (now_unix w) (suffix l)) ?w1"
  let ?w3 = "snd (os_OpenFile (baseName l) (snd ?r))"
  have ok0: "clock_ok iv ?w0" using ok by (rule clock_ok_time_Now)
  have ok2: "clock_ok iv (snd ?r)"
    using ok0 clock_ok_cong [of "snd ?r" ?w0 iv] by simp
  have ok3: "clock_ok iv ?w3"
    using ok0 clock_ok_cong [of ?w3 ?w0 iv] by simp
  have ok4: "clock_ok iv (snd (time_Now ?w3))"
    using ok3 by (rule clock_ok_time_Now)
  show ?thesis
  proof (cases "fst ?r")
    case None
    with True have "snd (snd (doRollover Format l w)) = snd (time_Now ?w3)"
      by (simp add: doRollover_def case_prod_unfold Let_def)
    with ok4 show ?thesis by simp
  next
    case (Some e)
    with True have "snd (snd (doRollover Format l w)) = snd ?r"
      by (simp add: doRollover_def case_prod_unfold Let_def)
    with ok2 show ?thesis by simp
  qed
qed

lemma Write_world:
  "snd (snd (Write Format l p w)) = snd (snd (doRollover Format l w)) \<or>
   snd (snd (Write Format l p w)) =
     snd (fmt_Fprintln (fd (fst (snd (doRollover Format l w)))) p (snd (snd (doRollover Format l w))))"
  by (cases "doRollover Format l w"; cases "fst (doRollover Format l w)")
     (auto simp: Write_def case_prod_unfold Let_def)

lemma Write_handler: "fst (snd (Write Format l p w)) = fst (snd (doRollover Format l w))"
  by (cases "doRollover Format l w"; cases "fst (doRollover Format l w)")
     (auto simp: Write_def case_prod_unfold Let_def)

lemma Write_clock_ok:
  assumes ok: "clock_ok iv w"
  shows "clock_ok iv (snd (snd (Write Format l p w)))"
proof -
  let ?l1 = "fst (snd (doRollover Format l w))"
  let ?w1 = "snd (snd (doRollover Format l w))"
  have ok1: "clock_ok iv ?w1" using ok by (rule doRollover_clock_ok)
  have ok2: "clock_ok iv (snd (fmt_Fprintln (fd ?l1) p ?w1))"
    using ok1 clock_ok_cong [of "snd (fmt_Fprintln (fd ?l1) p ?w1)" ?w1 iv] by simp
  from Write_world [of Format l p w] ok1 ok2 show ?thesis
    by (elim disjE) simp_all
qed

lemma Write_interval: "interval (fst (snd (Write Format l p w))) = interval l"
  using doRollover_handler [of Format l w] by (auto simp: Write_handler)

lemma Write_rolloverAt_mono:
  assumes iv: "1 \<le> sint (interval l)" and ok: "clock_ok (interval l) w"
  shows "sint (rolloverAt l) \<le> sint (rolloverAt (fst (snd (Write Format l p w))))"
proof -
  let ?now' = "now_unix (snd (time_Now w))"
  from doRollover_handler [of Format l w]
  consider "fst (snd (doRollover Format l w)) = l"
    | f where "sint (rolloverAt l) \<le> sint (now_unix w)"
        "fst (snd (doRollover Format l w)) = l\<lparr>fd := f, rolloverAt := ?now' + interval l\<rparr>"
    by blast
  then show ?thesis
  proof cases
    case 1
    then show ?thesis by (simp add: Write_handler)
  next
    case 2
    have le: "sint (now_unix w) \<le> sint ?now'" using ok by (rule clock_ok_next)
    have up: "sint ?now' + sint (interval l) < 2 ^ 63"
      using clock_ok_now [OF clock_ok_time_Now [OF ok]] .
    have lo: "- (2 ^ 63) \<le> sint ?now' + sint (interval l)"
      using sint_ge [of ?now'] iv by simp
    have "sint (?now' + interval l) = sint ?now' + sint (interval l)"
      using lo up by (rule sint_add_in_range)
    with 2 le iv show ?thesis by (simp add: Write_handler)
  qed
qed

lemma write_seq_sorted:
  "1 \<le> sint (interval l) \<Longrightarrow> clock_ok (interval l) w \<Longrightarrow>
     sorted (map (\<lambda>h. sint (rolloverAt h)) (l # write_seq Format l ps w))"
proof (induction ps arbitrary: l w)
  case Nil
  then show ?case by simp
next
  case (Cons p ps)
  let ?l1 = "fst (snd (Write Format l p w))"
  let ?w1 = "snd (snd (Write Format l p w))"
  have step: "sint (rolloverAt l) \<le> sint (rolloverAt ?l1)"
    using Cons.prems by (rule Write_rolloverAt_mono)
  have iv1: "1 \<le> sint (interval ?l1)" and ok1: "clock_ok (interval ?l1) ?w1"
    using Cons.prems by (simp_all add: Write_interval Write_clock_ok)
  from Cons.IH [OF iv1 ok1] have ih: "sorted (map (\<lambda>h. sint (rolloverAt h)) (?l1 # write_seq Format ?l1 ps ?w1))" .
  show ?case
  proof (cases "fst (Write Format l p w)")
    case (Returns r)
    then have eq: "write_seq Format l (p # ps) w = ?l1 # write_seq Format ?l1 ps ?w1"
      by (simp add: case_prod_unfold)
    show ?thesis unfolding eq using step ih by (simp only: list.map sorted2)
  next
    case (Panics v)
    then have eq: "write_seq Format l (p # ps) w = [?l1]"
      by (simp add: case_prod_unfold)
    show ?thesis unfolding eq using step by simp
  qed
qed

lemma Write_due_rolloverAt:
  assumes due: "sint (rolloverAt l) \<le> sint (now_unix w)"
      and ret: "fst (Write Format l p w) = Returns r"
  shows "rolloverAt (fst (snd (Write Format l p w))) = now_unix (snd (time_Now w)) + interval l"
proof -
  from ret have "fst (doRollover Format l w) = Returns ()"
    by (cases "doRollover Format l w"; cases "fst (doRollover Format l w)")
       (auto simp: Write_def case_prod_unfold Let_def)
  with due show ?thesis
    by (auto simp: Write_handler doRollover_def case_prod_unfold Let_def time_Now_def
        split: option.splits list.splits)
qed

text \<open>
  Claim C3, as amended. Take a writer with \<open>interval \<ge> 1\<close> and a clock whose readings
  never decrease and stay where adding the interval does not overflow \<^verbatim>\<open>int64\<close>. Then
  along any sequence of \<^verbatim>\<open>Write\<close> calls \<open>rolloverAt\<close> never decreases. And whenever a
  \<^verbatim>\<open>Write\<close> finds rollover due at the reading \<open>now\<close> and returns, the new \<open>rolloverAt\<close>
  is \<open>now' + interval\<close>, where \<open>now' \<ge> now\<close> is the second reading of the clock, taken
  after the reopen: missed boundaries are skipped, not back-filled.
\<close>

theorem rolloverAt_advances:
  assumes iv: "1 \<le> sint (interval l)"
      and mono: "sorted (map sint (clock_readings w))"
      and rng: "\<forall>t \<in> set (clock_readings w). sint t + sint (interval l) < 2 ^ 63"
  shows "sorted (map (\<lambda>h. sint (rolloverAt h)) (l # write_seq Format l ps w)) \<and>
         (sint (rolloverAt l) \<le> sint (now_unix w) \<and> fst (Write Format l p w) = Returns r \<longrightarrow>
            rolloverAt (fst (snd (Write Format l p w))) = now_unix (snd (time_Now w)) + interval l \<and>
            sint (rolloverAt (fst (snd (Write Format l p w)))) =
              sint (now_unix (snd (time_Now w))) + sint (interval l) \<and>
            sint (now_unix w) \<le> sint (now_unix (snd (time_Now w))))"
proof -
  have ok: "clock_ok (interval l) w"
    using mono rng by (simp add: clock_ok_def)
  let ?now' = "now_unix (snd (time_Now w))"
  have le: "sint (now_unix w) \<le> sint ?now'" using ok by (rule clock_ok_next)
  have up: "sint ?now' + sint (interval l) < 2 ^ 63"
    using clock_ok_now [OF clock_ok_time_Now [OF ok]] .
  have lo: "- (2 ^ 63) \<le> sint ?now' + sint (interval l)"
    using sint_ge [of ?now'] iv by simp
  have ar: "sint (?now' + interval l) = sint ?now' + sint (interval l)"
    using lo up by (rule sint_add_in_range)
  show ?thesis
    using write_seq_sorted [OF iv ok, of Format ps] le ar
    by (auto simp: Write_due_rolloverAt)
qed



text \<open>Two calls from clock 100: the first rolls over (second reading 101), the second does not.\<close>

theorem rolloverAt_advances_witness:
  "1 \<le> sint (interval handler0) \<and>
   sorted (map sint (clock_readings world0)) \<and>
   list_all (\<lambda>t. sint t + sint (interval handler0) < 2 ^ 63) (clock_readings world0) \<and>
   map (\<lambda>h. sint (rolloverAt h)) (handler0 # write_seq Format0 handler0 [''a'', ''b''] world0) =
     [100, 161, 161] \<and>
   sorted (map (\<lambda>h. sint (rolloverAt h)) (handler0 # write_seq Format0 handler0 [''a'', ''b''] world0))"
proof -
  have iv: "1 \<le> sint (interval handler0)"
    by (simp add: handler0_def)
  have mono: "sorted (map sint (clock_readings world0))"
    by (simp add: world0_def clock_readings_def)
  have rng: "\<forall>t \<in> set (clock_readings world0). sint t + sint (interval handler0) < 2 ^ 63"
    by (simp add: world0_def handler0_def clock_readings_def)
  have ev: "map (\<lambda>h. sint (rolloverAt h)) (handler0 # write_seq Format0 handler0 [''a'', ''b''] world0) =
     [100, 161, 161]"
    by code_simp
  from rolloverAt_advances [OF iv mono rng, of Format0 "[''a'', ''b'']"]
  have "sorted (map (\<lambda>h. sint (rolloverAt h)) (handler0 # write_seq Format0 handler0 [''a'', ''b''] world0))"
    by blast
  with iv mono rng ev show ?thesis by (simp add: list_all_iff)
qed

text \<open>
  Claim C3 as stated fails: rollover is due at \<open>now = 100\<close> with interval 60, the clock
  ticks to 101 between the two readings, and the new \<open>rolloverAt\<close> is 161, not 160.
\<close>

theorem rolloverAt_not_now_plus_interval:
  "1 \<le> sint (interval handler0) \<and>
   sorted (map sint (clock_readings world0)) \<and>
   sint (rolloverAt handler0) \<le> sint (now_unix world0) \<and>
   fst (Write Format0 handler0 ''hi'' world0) = Returns (3, None) \<and>
   now_unix world0 + interval handler0 = 160 \<and>
   rolloverAt (fst (snd (Write Format0 handler0 ''hi'' world0))) = 161"
  by (simp add: Write_def doRollover_def clock_readings_def world0_def handler0_def Format0_def time_Now_def os_Close_def os_Rename_def os_OpenFile_def os_Write_def fmt_Fprintln_def logcall_def lookup_handle_def fs_parent_def Let_def)

subsection \<open>newLogHandler\<close>

lemmas When_defs = WhenSecond_def WhenMinute_def WhenHour_def WhenDay_def

lemma os_OpenFile_cases:
  "(\<exists>e. fst (os_OpenFile p w) = (None, Some e)) \<or>
   (\<exists>h. fst (os_OpenFile p w) = (Some h, None) \<and>
        os_Stat_ModTime (Some h) (snd (os_OpenFile p w)) \<noteq> None)"
  by (auto simp: os_OpenFile_def os_Stat_ModTime_def lookup_handle_def logcall_def Let_def
           nth_append split: option.splits)

lemma newLogHandler_invalid:
  "when \<notin> {WhenSecond, WhenMinute, WhenHour, WhenDay} \<Longrightarrow>
     newLogHandler pathDir base when ival w =
       (Returns (Inl (InvalidWhenRotate when)), snd (os_MkdirAll (pathDir base) w))"
  by (simp add: newLogHandler_def case_prod_unfold Let_def)

lemma newLogHandler_open_fails:
  assumes "when \<in> {WhenSecond, WhenMinute, WhenHour, WhenDay}"
      and "snd (fst (os_OpenFile base (snd (os_MkdirAll (pathDir base) w)))) = Some e"
  shows "fst (newLogHandler pathDir base when ival w) = Returns (Inl (PathError e))"
  using assms by (auto simp: newLogHandler_def case_prod_unfold Let_def When_defs)

lemma newLogHandler_open_succeeds:
  assumes "when \<in> {WhenSecond, WhenMinute, WhenHour, WhenDay}"
      and "snd (fst (os_OpenFile base (snd (os_MkdirAll (pathDir base) w)))) = None"
  shows "\<exists>h. fst (newLogHandler pathDir base when ival w) = Returns (Inr h)"
proof -
  let ?w1 = "snd (os_MkdirAll (pathDir base) w)"
  from os_OpenFile_cases [of base ?w1] assms(2)
  obtain h where h: "fst (os_OpenFile base ?w1) = (Some h, None)"
    "os_Stat_ModTime (Some h) (snd (os_OpenFile base ?w1)) \<noteq> None"
    by auto
  then obtain mt where "os_Stat_ModTime (Some h) (snd (os_OpenFile base ?w1)) = Some mt"
    by auto
  with h assms(1) show ?thesis
    by (auto simp: newLogHandler_def case_prod_unfold Let_def When_defs)
qed

text \<open>
  Claim C4, as amended. \<^verbatim>\<open>newLogHandler\<close> always returns (it never panics), and it
  returns an error exactly when the granularity is not one of second, minute, hour, day
  (the error \<^verbatim>\<open>invalid when_rotate\<close>) or the base path cannot be opened (the error of
  \<^verbatim>\<open>os.OpenFile\<close>). The result of \<^verbatim>\<open>os.MkdirAll\<close> is not looked at. With an invalid
  granularity it returns after the one \<^verbatim>\<open>os.MkdirAll\<close> call on the parent directory and
  before any file is opened or created: directory entries, inodes and open files are
  as before.
\<close>

theorem newLogHandler_errors:
  "(\<exists>r. fst (newLogHandler pathDir base when ival w) = Returns r) \<and>
   ((\<exists>e. fst (newLogHandler pathDir base when ival w) = Returns (Inl e)) =
      (when \<notin> {WhenSecond, WhenMinute, WhenHour, WhenDay} \<or>
       snd (fst (os_OpenFile base (snd (os_MkdirAll (pathDir base) w)))) \<noteq> None)) \<and>
   (when \<notin> {WhenSecond, WhenMinute, WhenHour, WhenDay} \<longrightarrow>
      newLogHandler pathDir base when ival w =
        (Returns (Inl (InvalidWhenRotate when)), snd (os_MkdirAll (pathDir base) w)) \<and>
      new_calls w (snd (newLogHandler pathDir base when ival w)) = [SysMkdirAll (pathDir base)] \<and>
      entries (snd (newLogHandler pathDir base when ival w)) = entries w \<and>
      inodes (snd (newLogHandler pathDir base when ival w)) = inodes w \<and>
      handles (snd (newLogHandler pathDir base when ival w)) = handles w) \<and>
   (when \<in> {WhenSecond, WhenMinute, WhenHour, WhenDay} \<longrightarrow>
      (\<forall>e. snd (fst (os_OpenFile base (snd (os_MkdirAll (pathDir base) w)))) = Some e \<longrightarrow>
           fst (newLogHandler pathDir base when ival w) = Returns (Inl (PathError e))))"
proof (cases "when \<in> {WhenSecond, WhenMinute, WhenHour, WhenDay}")
  case False
  from newLogHandler_invalid [where pathDir = pathDir and base = base and ival = ival and w = w, OF False] False
  show ?thesis by simp
next
  case True
  show ?thesis
  proof (cases "snd (fst (os_OpenFile base (snd (os_MkdirAll (pathDir base) w))))")
    case None
    from newLogHandler_open_succeeds
      [where pathDir = pathDir and base = base and ival = ival and w = w, OF True None] True None
    show ?thesis by auto
  next
    case (Some e)
    from newLogHandler_open_fails
      [where pathDir = pathDir and base = base and ival = ival and w = w, OF True Some] True Some
    show ?thesis by auto
  qed
qed

text \<open>Granularity 9 on an empty file system; and a base path that is a directory.\<close>

theorem newLogHandler_errors_witness:
  "(9 :: int8) \<notin> {WhenSecond, WhenMinute, WhenHour, WhenDay} \<and>
   fst (newLogHandler fs_parent ''/l/k'' 9 3600 world_new) = Returns (Inl (InvalidWhenRotate 9)) \<and>
   entries (snd (newLogHandler fs_parent ''/l/k'' 9 3600 world_new)) = [] \<and>
   WhenHour \<in> {WhenSecond, WhenMinute, WhenHour, WhenDay} \<and>
   snd (fst (os_OpenFile ''/l'' (snd (os_MkdirAll (fs_parent ''/l'') world0)))) = Some EISDIR \<and>
   fst (newLogHandler fs_parent ''/l'' WhenHour 3600 world0) = Returns (Inl (PathError EISDIR))"
proof -
  have inv: "(9 :: int8) \<notin> {WhenSecond, WhenMinute, WhenHour, WhenDay}"
    by (simp add: When_defs)
  have val: "WhenHour \<in> {WhenSecond, WhenMinute, WhenHour, WhenDay}"
    by simp
  have op: "snd (fst (os_OpenFile ''/l'' (snd (os_MkdirAll (fs_parent ''/l'') world0)))) = Some EISDIR"
    by (simp add: world0_def os_OpenFile_def os_MkdirAll_def fs_parent_def logcall_def Let_def)
  have en: "entries world_new = []"
    by (simp add: world_new_def)
  from newLogHandler_errors [of fs_parent "''/l/k''" 9 3600 world_new] inv en
  have a: "fst (newLogHandler fs_parent ''/l/k'' 9 3600 world_new) = Returns (Inl (InvalidWhenRotate 9)) \<and>
           entries (snd (newLogHandler fs_parent ''/l/k'' 9 3600 world_new)) = []"
    by simp
  from newLogHandler_errors [of fs_parent "''/l''" WhenHour 3600 world0] val op
  have b: "fst (newLogHandler fs_parent ''/l'' WhenHour 3600 world0) = Returns (Inl (PathError EISDIR))"
    by blast
  from inv val op a b show ?thesis by blast
qed

text \<open>
  Claim C4 as stated fails: with granularity 9 and no directory \<^verbatim>\<open>/l\<close>, the call returns
  the error, and the directory \<^verbatim>\<open>/l\<close> has been made.
\<close>

theorem newLogHandler_invalid_when_makes_directory:
  "(9 :: int8) \<notin> {WhenSecond, WhenMinute, WhenHour, WhenDay} \<and>
   dirs world_new = [] \<and>
   fst (newLogHandler fs_parent ''/l/k'' 9 3600 world_new) = Returns (Inl (InvalidWhenRotate 9)) \<and>
   dirs (snd (newLogHandler fs_parent ''/l/k'' 9 3600 world_new)) = [''/l''] \<and>
   calls (snd (newLogHandler fs_parent ''/l/k'' 9 3600 world_new)) = [SysMkdirAll ''/l'']"
  by (simp add: newLogHandler_def When_defs world_new_def os_MkdirAll_def fs_parent_def
      logcall_def Let_def)

lemma sint_mult_in_range:
  fixes a b :: int64
  assumes "- (2 ^ 63) \<le> sint a * sint b" and "sint a * sint b < 2 ^ 63"
  shows "sint (a * b) = sint a * sint b"
  using assms by (simp add: sint_word_mult signed_take_bit_int_eq_self)

lemma newLogHandler_opened:
  assumes op: "snd (fst (os_OpenFile base (snd (os_MkdirAll (pathDir base) w)))) = None"
  shows "\<exists>f mt.
     fst (newLogHandler pathDir base WhenSecond m w) =
       Returns (Inr \<lparr>fd = f, baseName = base, interval = 1 * m,
                     suffix = ''2006-01-02_15-04-05'', rolloverAt = mt + 1 * m\<rparr>) \<and>
     fst (newLogHandler pathDir base WhenMinute m w) =
       Returns (Inr \<lparr>fd = f, baseName = base, interval = 60 * m,
                     suffix = ''2006-01-02_15-04'', rolloverAt = mt + 60 * m\<rparr>) \<and>
     fst (newLogHandler pathDir base WhenHour m w) =
       Returns (Inr \<lparr>fd = f, baseName = base, interval = 3600 * m,
                     suffix = ''2006-01-02_15'', rolloverAt = mt + 3600 * m\<rparr>) \<and>
     fst (newLogHandler pathDir base WhenDay m w) =
       Returns (Inr \<lparr>fd = f, baseName = base, interval = 86400 * m,
                     suffix = ''2006-01-02'', rolloverAt = mt + 86400 * m\<rparr>)"
proof -
  let ?w1 = "snd (os_MkdirAll (pathDir base) w)"
  from os_OpenFile_cases [of base ?w1] op
  obtain h where h: "fst (os_OpenFile base ?w1) = (Some h, None)"
    "os_Stat_ModTime (Some h) (snd (os_OpenFile base ?w1)) \<noteq> None"
    by auto
  then obtain mt where mt: "os_Stat_ModTime (Some h) (snd (os_OpenFile base ?w1)) = Some mt"
    by auto
  from h(1) mt show ?thesis
    by (simp add: newLogHandler_def case_prod_unfold Let_def When_defs)
qed

text \<open>
  Claim C8, as amended. When the base path can be opened, \<^verbatim>\<open>newLogHandler\<close> returns a
  handler for each of the four granularities and every multiplier \<open>m\<close>, with
  \<open>interval\<close> the \<^verbatim>\<open>int64\<close> product of the base (1, 60, 3600, 86400 for second, minute,
  hour, day) and \<open>m\<close>, and the layout of the rename suffix at the matching precision.
  That product is the number \<open>base * m\<close> of seconds whenever this number lies in the
  \<^verbatim>\<open>int64\<close> range; outside it the product has wrapped around.
\<close>

theorem newLogHandler_interval_suffix:
  assumes op: "snd (fst (os_OpenFile base (snd (os_MkdirAll (pathDir base) w)))) = None"
  shows
  "(\<exists>h. fst (newLogHandler pathDir base WhenSecond m w) = Returns (Inr h) \<and>
        interval h = 1 * m \<and> suffix h = ''2006-01-02_15-04-05'' \<and>
        sint (interval h) = 1 * sint m) \<and>
   (\<exists>h. fst (newLogHandler pathDir base WhenMinute m w) = Returns (Inr h) \<and>
        interval h = 60 * m \<and> suffix h = ''2006-01-02_15-04'' \<and>
        (- (2 ^ 63) \<le> 60 * sint m \<and> 60 * sint m < 2 ^ 63 \<longrightarrow>
           sint (interval h) = 60 * sint m)) \<and>
   (\<exists>h. fst (newLogHandler pathDir base WhenHour m w) = Returns (Inr h) \<and>
        interval h = 3600 * m \<and> suffix h = ''2006-01-02_15'' \<and>
        (- (2 ^ 63) \<le> 3600 * sint m \<and> 3600 * sint m < 2 ^ 63 \<longrightarrow>
           sint (interval h) = 3600 * sint m)) \<and>
   (\<exists>h. fst (newLogHandler pathDir base WhenDay m w) = Returns (Inr h) \<and>
        interval h = 86400 * m \<and> suffix h = ''2006-01-02'' \<and>
        (- (2 ^ 63) \<le> 86400 * sint m \<and> 86400 * sint m < 2 ^ 63 \<longrightarrow>
           sint (interval h) = 86400 * sint m))"
proof -
  have s60: "sint (60 * m) = 60 * sint m"
    if "- (2 ^ 63) \<le> 60 * sint m" "60 * sint m < 2 ^ 63"
    using sint_mult_in_range [of 60 m] that by simp
  have s3600: "sint (3600 * m) = 3600 * sint m"
    if "- (2 ^ 63) \<le> 3600 * sint m" "3600 * sint m < 2 ^ 63"
    using sint_mult_in_range [of 3600 m] that by simp
  have s86400: "sint (86400 * m) = 86400 * sint m"
    if "- (2 ^ 63) \<le> 86400 * sint m" "86400 * sint m < 2 ^ 63"
    using sint_mult_in_range [of 86400 m] that by simp
  from newLogHandler_opened [where pathDir = pathDir and base = base and w = w and m = m, OF op]
  obtain f mt where r:
     "fst (newLogHandler pathDir base WhenSecond m w) =
       Returns (Inr \<lparr>fd = f, baseName = base, interval = 1 * m,
                     suffix = ''2006-01-02_15-04-05'', rolloverAt = mt + 1 * m\<rparr>)"
     "fst (newLogHandler pathDir base WhenMinute m w) =
       Returns (Inr \<lparr>fd = f, baseName = base, interval = 60 * m,
                     suffix = ''2006-01-02_15-04'', rolloverAt = mt + 60 * m\<rparr>)"
     "fst (newLogHandler pathDir base WhenHour m w) =
       Returns (Inr \<lparr>fd = f, baseName = base, interval = 3600 * m,
                     suffix = ''2006-01-02_15'', rolloverAt = mt + 3600 * m\<rparr>)"
     "fst (newLogHandler pathDir base WhenDay m w) =
       Returns (Inr \<lparr>fd = f, baseName = base, interval = 86400 * m,
                     suffix = ''2006-01-02'', rolloverAt = mt + 86400 * m\<rparr>)"
    by blast
  show ?thesis
    using s60 s3600 s86400 by (simp add: r)
qed

text \<open>
  The multiplier 3600 that \<^verbatim>\<open>main\<close> passes, for each granularity (\<^verbatim>\<open>main\<close> itself calls
  \<^verbatim>\<open>newLogHandler(c.logPath, WhenHour, 3600)\<close>).
\<close>

theorem newLogHandler_interval_suffix_witness:
  "snd (fst (os_OpenFile ''/l/k'' (snd (os_MkdirAll (fs_parent ''/l/k'') world0)))) = None \<and>
   fst (newLogHandler fs_parent ''/l/k'' WhenSecond 3600 world0) =
     Returns (Inr \<lparr>fd = Some 1, baseName = ''/l/k'', interval = 3600,
                   suffix = ''2006-01-02_15-04-05'', rolloverAt = 3640\<rparr>) \<and>
   fst (newLogHandler fs_parent ''/l/k'' WhenMinute 3600 world0) =
     Returns (Inr \<lparr>fd = Some 1, baseName = ''/l/k'', interval = 216000,
                   suffix = ''2006-01-02_15-04'', rolloverAt = 216040\<rparr>) \<and>
   fst (newLogHandler fs_parent ''/l/k'' WhenHour 3600 world0) =
     Returns (Inr \<lparr>fd = Some 1, baseName = ''/l/k'', interval = 12960000,
                   suffix = ''2006-01-02_15'', rolloverAt = 12960040\<rparr>) \<and>
   fst (newLogHandler fs_parent ''/l/k'' WhenDay 3600 world0) =
     Returns (Inr \<lparr>fd = Some 1, baseName = ''/l/k'', interval = 311040000,
                   suffix = ''2006-01-02'', rolloverAt = 311040040\<rparr>) \<and>
   (\<exists>h. fst (newLogHandler fs_parent ''/l/k'' WhenDay 3600 world0) = Returns (Inr h) \<and>
        sint (interval h) = 86400 * sint (3600 :: int64))"
proof -
  have op: "snd (fst (os_OpenFile ''/l/k'' (snd (os_MkdirAll (fs_parent ''/l/k'') world0)))) = None"
    by code_simp
  have ev:
   "fst (newLogHandler fs_parent ''/l/k'' WhenSecond 3600 world0) =
     Returns (Inr \<lparr>fd = Some 1, baseName = ''/l/k'', interval = 3600,
                   suffix = ''2006-01-02_15-04-05'', rolloverAt = 3640\<rparr>) \<and>
   fst (newLogHandler fs_parent ''/l/k'' WhenMinute 3600 world0) =
     Returns (Inr \<lparr>fd = Some 1, baseName = ''/l/k'', interval = 216000,
                   suffix = ''2006-01-02_15-04'', rolloverAt = 216040\<rparr>) \<and>
   fst (newLogHandler fs_parent ''/l/k'' WhenHour 3600 world0) =
     Returns (Inr \<lparr>fd = Some 1, baseName = ''/l/k'', interval = 12960000,
                   suffix = ''2006-01-02_15'', rolloverAt = 12960040\<rparr>) \<and>
   fst (newLogHandler fs_parent ''/l/k'' WhenDay 3600 world0) =
     Returns (Inr \<lparr>fd = Some 1, baseName = ''/l/k'', interval = 311040000,
                   suffix = ''2006-01-02'', rolloverAt = 311040040\<rparr>)"
    by code_simp
  have rng: "- (2 ^ 63) \<le> 86400 * sint (3600 :: int64) \<and> 86400 * sint (3600 :: int64) < 2 ^ 63"
    by simp
  from newLogHandler_interval_suffix
    [where pathDir = fs_parent and base = "''/l/k''" and w = world0 and m = 3600, OF op] rng
  have "\<exists>h. fst (newLogHandler fs_parent ''/l/k'' WhenDay 3600 world0) = Returns (Inr h) \<and>
        sint (interval h) = 86400 * sint (3600 :: int64)"
    by blast
  with op ev show ?thesis by blast
qed

text \<open>
  Claim C8 as stated fails: for hour and \<open>m = 2^62\<close> the handler has interval 0, while
  \<open>3600 * m\<close> is not 0.
\<close>

theorem newLogHandler_interval_wraps:
  "fst (newLogHandler fs_parent ''/l/k'' WhenHour 4611686018427387904 world0) =
     Returns (Inr \<lparr>fd = Some 1, baseName = ''/l/k'', interval = 0,
                   suffix = ''2006-01-02_15'', rolloverAt = 40\<rparr>) \<and>
   sint (4611686018427387904 :: int64) = 4611686018427387904 \<and>
   (3600 :: int) * 4611686018427387904 = 16602069666338596454400"
proof -
  have "fst (newLogHandler fs_parent ''/l/k'' WhenHour 4611686018427387904 world0) =
     Returns (Inr \<lparr>fd = Some 1, baseName = ''/l/k'', interval = 0,
                   suffix = ''2006-01-02_15'', rolloverAt = 40\<rparr>)"
    by code_simp
  moreover have "sint (4611686018427387904 :: int64) = 4611686018427387904"
    by simp
  ultimately show ?thesis by simp
qed

subsection \<open>handleLog\<close>

text \<open>
  A worker that goes round its loop once with nobody else moving counts its payload: the
  counter goes up by one, whatever error \<^verbatim>\<open>Write\<close> returned.
\<close>

lemma handleLog_alone_counts:
  assumes t: "t < length (workers s)" and at: "workers s ! t = AtRecv"
      and nc: "\<not> list_ex is_crashed (workers s)"
      and q: "buf (logChannel s) = json # rest"
      and ret: "fst (wr (writer s) json (files s)) = Returns r"
  shows "\<exists>s'. handleLog_run wr [t, t, t, t] s = Some s' \<and>
           config s' = (config s)\<lparr>handledNum := handledNum (config s) + 1\<rparr> \<and>
           workers s' = workers s \<and>
           buf (logChannel s') = rest \<and>
           writer s' = fst (snd (wr (writer s) json (files s))) \<and>
           files s' = snd (snd (wr (writer s) json (files s)))"
  using assms
  by (cases "wr (writer s) json (files s)")
     (simp add: handleLog_step_def list_ex_update list_update_same_conv)

text \<open>
  Claim C5 says that the counter advances by exactly one for every payload a worker
  takes from the channel, so by \<open>K\<close> after \<open>K\<close> payloads. The two workers of \<^verbatim>\<open>main\<close>
  share the one \<^verbatim>\<open>ConfigStruct\<close>, and \<^verbatim>\<open>c.handledNum++\<close> reads and writes it unguarded. In
  the schedule below each worker takes one payload and writes it; then both read the
  counter at 0 and both store 1. Both payloads are in the file, both workers are back
  at the head of the loop, and the counter is 1, not 2.
\<close>

theorem handleLog_lost_update:
  "map_option pool_observe (handleLog_run (Write Format0) [0, 0, 1, 1, 0, 1, 0, 1] pool0) =
     Some (1, [AtRecv, AtRecv], [''olda\<newline>b\<newline>''])"
  by code_simp

text \<open>With the increments one after the other the counter is 2.\<close>

lemma handleLog_one_after_the_other:
  "map_option pool_observe (handleLog_run (Write Format0) [0, 0, 0, 0, 1, 1, 1, 1] pool0) =
     Some (2, [AtRecv, AtRecv], [''olda\<newline>b\<newline>''])"
  by code_simp

subsection \<open>The POST handler\<close>

text \<open>
  Claim C6. The handler of \<^verbatim>\<open>POST /kong-log\<close> answers 200 with \<^verbatim>\<open>{"status": "ok"}\<close> when
  the body cannot be read, leaving the channel as it is, and the same when the body was
  read and the payload went into the channel. It never answers anything else; while the
  channel is full it is parked on the send and has not answered. Neither the handler
  nor the files are inputs of the function: the answer cannot depend on what a later
  write does.
\<close>

theorem postKongLog_always_ok:
  fixes e :: 'e and raw :: "bytes \<times> 'e option"
  shows
  "postKongLog (data, Some e) ch =
     Some (\<lparr>status_code = 200, json_body = [(''status'', ''ok'')]\<rparr>, ch) \<and>
   (length (buf ch) < cap ch \<longrightarrow>
      postKongLog (data, None :: 'e option) ch =
        Some (\<lparr>status_code = 200, json_body = [(''status'', ''ok'')]\<rparr>, ch\<lparr>buf := buf ch @ [data]\<rparr>)) \<and>
   (\<not> length (buf ch) < cap ch \<longrightarrow> postKongLog (data, None :: 'e option) ch = None) \<and>
   (\<forall>r ch'. postKongLog raw ch = Some (r, ch') \<longrightarrow>
      r = \<lparr>status_code = 200, json_body = [(''status'', ''ok'')]\<rparr>)"
  by (auto simp: postKongLog_def chan_send_def StatusOK_def split: prod.splits option.splits if_splits)

text \<open>The empty channel of capacity 2.\<close>

theorem postKongLog_always_ok_witness:
  "length (buf chan0) < cap chan0 \<and>
   postKongLog (''x'', Some ()) chan0 =
     Some (\<lparr>status_code = 200, json_body = [(''status'', ''ok'')]\<rparr>, chan0) \<and>
   postKongLog (''x'', None :: unit option) chan0 =
     Some (\<lparr>status_code = 200, json_body = [(''status'', ''ok'')]\<rparr>, \<lparr>buf = [''x''], cap = 2\<rparr>)"
proof -
  have room: "length (buf chan0) < cap chan0"
    by (simp add: chan0_def)
  have c: "chan0\<lparr>buf := buf chan0 @ [''x'']\<rparr> = \<lparr>buf = [''x''], cap = 2\<rparr>"
    by (simp add: chan0_def)
  from postKongLog_always_ok [where data = "''x''" and e = "()" and ch = chan0] room c
  show ?thesis by simp
qed

subsection \<open>Several workers\<close>

text \<open>
  The mutex does its work for the rollover: from a state where the calls holding the
  mutex are exactly the one the mutex names, every schedule leads to such a state, so
  two calls are never both between \<^verbatim>\<open>Lock\<close> and \<^verbatim>\<open>Unlock\<close>. And a call that runs
  alone, step by step, does what the function \<open>Write\<close> above does.
\<close>

lemma step_lock_inv:
  assumes "lock_inv s" and "step Format t s = Some s'"
  shows "lock_inv s'"
proof -
  from assms(2) have t: "t < length (running s)"
    by (simp add: step_def split: if_splits)
  with assms(1) have at_t: "holds_mux (at (running s ! t)) = (mux s = Some t)"
    by (simp add: lock_inv_def)
  from assms at_t t show ?thesis
    by (cases "at (running s ! t)")
       (auto simp: step_def lock_inv_def goto_def Let_def case_prod_unfold nth_list_update
             split: if_splits option.splits)
qed

lemma run_lock_inv:
  "lock_inv s \<Longrightarrow> run Format sched s = Some s' \<Longrightarrow> lock_inv s'"
  by (induction sched arbitrary: s) (auto split: option.splits dest: step_lock_inv)

lemma rollover_exclusive:
  assumes "lock_inv s" and "t < length (running s)" and "u < length (running s)"
      and "holds_mux (at (running s ! t))" and "holds_mux (at (running s ! u))"
  shows "t = u"
  using assms by (auto simp: lock_inv_def)


lemma run_alone_is_Write:
  assumes t: "t < length (running s)" and lk: "at (running s ! t) = AtLock"
      and free: "mux s = None" and nc: "\<not> list_ex (\<lambda>c. crashed (at c)) (running s)"
  shows "\<exists>sched s'. set sched \<subseteq> {t} \<and> run Format sched s = Some s' \<and>
           handler s' = fst (snd (Write Format (handler s) (payload (running s ! t)) (os s))) \<and>
           os s' = snd (snd (Write Format (handler s) (payload (running s ! t)) (os s))) \<and>
           at (running s' ! t) =
             (case fst (Write Format (handler s) (payload (running s ! t)) (os s)) of
                Returns r \<Rightarrow> Returned r
              | Panics v \<Rightarrow> Panicked v)"
proof -
  let ?l = "handler s" and ?w = "os s" and ?p = "payload (running s ! t)"
  note defs = step_def goto_def Let_def case_prod_unfold Write_def doRollover_def list_ex_update
  show ?thesis
  proof (cases "sint (rolloverAt ?l) \<le> sint (now_unix ?w)")
    case False
    have "set [t, t, t, t] \<subseteq> {t}" by simp
    moreover from False t lk free nc
    have "\<exists>s'. run Format [t, t, t, t] s = Some s' \<and>
           handler s' = fst (snd (Write Format ?l ?p ?w)) \<and>
           os s' = snd (snd (Write Format ?l ?p ?w)) \<and>
           at (running s' ! t) =
             (case fst (Write Format ?l ?p ?w) of Returns r \<Rightarrow> Returned r | Panics v \<Rightarrow> Panicked v)"
      by (simp add: defs)
    ultimately show ?thesis by blast
  next
    case True
    let ?r = "os_Rename (baseName ?l) (baseName ?l @ Format (now_unix ?w) (suffix ?l))
                (snd (os_Close (fd ?l) (snd (time_Now ?w))))"
    show ?thesis
    proof (cases "fst ?r")
      case (Some e)
      have "set [t, t, t, t] \<subseteq> {t}" by simp
      moreover from True Some t lk free nc
      have "\<exists>s'. run Format [t, t, t, t] s = Some s' \<and>
             handler s' = fst (snd (Write Format ?l ?p ?w)) \<and>
             os s' = snd (snd (Write Format ?l ?p ?w)) \<and>
             at (running s' ! t) =
               (case fst (Write Format ?l ?p ?w) of Returns r \<Rightarrow> Returned r | Panics v \<Rightarrow> Panicked v)"
        by (simp add: defs)
      ultimately show ?thesis by blast
    next
      case None
      have "set [t, t, t, t, t, t, t, t] \<subseteq> {t}" by simp
      moreover from True None t lk free nc
      have "\<exists>s'. run Format [t, t, t, t, t, t, t, t] s = Some s' \<and>
             handler s' = fst (snd (Write Format ?l ?p ?w)) \<and>
             os s' = snd (snd (Write Format ?l ?p ?w)) \<and>
             at (running s' ! t) =
               (case fst (Write Format ?l ?p ?w) of Returns r \<Rightarrow> Returned r | Panics v \<Rightarrow> Panicked v)"
        by (simp add: defs)
      ultimately show ?thesis by blast
    qed
  qed
qed

text \<open>
  Claim C1 says that the due-check, the rollover and the append of one \<^verbatim>\<open>Write\<close> call
  run inside one critical section, so that no append interleaves with a rollover. The
  code unlocks before the append. In the schedule below worker 0 passes the check at
  clock 99 and unlocks; worker 1 locks, finds rollover due at clock 100 and closes the
  file; then worker 0 appends: worker 1 holds the mutex and is about to rename, and the
  append of worker 0 hits the closed file and returns \<^verbatim>\<open>ErrClosed\<close>. When both calls are
  over the payload \<^verbatim>\<open>a\<close> is in neither file.
\<close>

theorem Write_append_races_rollover:
  "map_option observe (run Format0 [0, 0, 0, 1, 1, 1, 0] shared0) =
     Some (Some 1, [Returned (0, Some ErrClosed), AtRename], [''old'']) \<and>
   map_option observe (run Format0 [0, 0, 0, 1, 1, 1, 0, 1, 1, 1, 1, 1] shared0) =
     Some (None, [Returned (0, Some ErrClosed), Returned (2, None)], [''old'', ''b\<newline>''])"
  by code_simp

text \<open>Had worker 0 appended before worker 1 locked, both payloads would be on disk.\<close>

lemma Write_one_after_the_other:
  "map_option observe (run Format0 [0, 0, 0, 0, 1, 1, 1, 1, 1, 1, 1, 1] shared0) =
     Some (None, [Returned (2, None), Returned (2, None)], [''olda\<newline>'', ''b\<newline>''])"
  by code_simp

end
